theory Spec2Isabelle
  imports Main "HOL-Library.AList"
begin

section \<open>The syntax tree handed to the flowchart builder\<close>

text \<open>
  The builder of \<^verbatim>\<open>src/app.py\<close> walks a Python syntax tree. The tree itself, and the
  text that \<^verbatim>\<open>ast.unparse(...).strip()\<close> gives for a statement, a test or a loop target,
  come from the standard library; the model takes them as data. A node carries exactly
  what \<^verbatim>\<open>visit\<close> reads from it:
  \<^item> \<open>Assign\<close>, \<open>AugAssign\<close>, \<open>Return\<close>: the unparsed statement;
  \<^item> \<open>Expr\<close>: the called name, when the value is a call whose callee is a plain name
    (\<^verbatim>\<open>node.value.func.id\<close>), and the unparsed statement;
  \<^item> \<open>If\<close>: the unparsed test, \<^verbatim>\<open>body\<close> and \<^verbatim>\<open>orelse\<close>;
  \<^item> \<open>For\<close>, \<open>While\<close>: the unparsed target or test, \<^verbatim>\<open>body\<close> and \<^verbatim>\<open>orelse\<close>;
  \<^item> \<open>FunctionDef\<close>: name, parameter names and body;
  \<^item> \<open>Other\<close>: every other kind of node, with the children that
    \<^verbatim>\<open>ast.iter_child_nodes\<close> yields, in order.
\<close>

datatype node =
    Assign string
  | AugAssign string
  | Expr "string option" string
  | Return string
  | If string "node list" "node list"
  | For string "node list" "node list"
  | While string "node list" "node list"
  | Break
  | Continue
  | FunctionDef string "string list" "node list"
  | Other "node list"

text \<open>
  The children the generic tail of \<^verbatim>\<open>visit\<close> iterates over. Only a node kind that no
  earlier branch of \<^verbatim>\<open>visit\<close> handles reaches that tail: \<open>Other\<close>, and a function
  definition that is not filtered out at top level. The statement children of a function
  definition are its body; its remaining children (parameters, decorators, annotation)
  are expression nodes, which are \<open>Other\<close> trees in this model and are left out here.
\<close>

fun iter_child_nodes :: "node \<Rightarrow> node list" where
  "iter_child_nodes (FunctionDef name params body) = body"
| "iter_child_nodes (Other children) = children"
| "iter_child_nodes n = []"

section \<open>The graph store\<close>

type_synonym shape = "string \<times> string"

record node_data =
  label :: string
  shape :: shape

text \<open>An edge is the tuple \<^verbatim>\<open>(src, tgt, label)\<close>; either end may be \<^verbatim>\<open>None\<close>.\<close>

type_synonym edge = "string option \<times> string option \<times> string"

text \<open>
  \<^verbatim>\<open>nodes\<close> is a dict, which keeps insertion order and overwrites in place: an
  association list under \<open>AList.update\<close>. \<^verbatim>\<open>edges\<close> is a list. \<^verbatim>\<open>node_counter\<close> is
  the nonlocal counter.
\<close>

record builder =
  nodes :: "(string \<times> node_data) list"
  edges :: "edge list"
  node_counter :: nat

record func_entry =
  body :: "node list"
  args :: "string list"

type_synonym function_table = "(string \<times> func_entry) list"

datatype error = SyntaxError | RecursionError | UnicodeEncodeError

subsection \<open>Decimal rendering of the counter\<close>

definition digit_char :: "nat \<Rightarrow> char" where
  "digit_char n = ''0123456789'' ! n"

fun str_nat :: "nat \<Rightarrow> string" where
  "str_nat n = (if n < 10 then [digit_char n] else str_nat (n div 10) @ [digit_char (n mod 10)])"

declare str_nat.simps [simp del]

text \<open>\<^verbatim>\<open>f"N{node_counter}"\<close>\<close>

definition node_name :: "nat \<Rightarrow> string" where
  "node_name n = CHR ''N'' # str_nat n"

definition get_node_id :: "builder \<Rightarrow> string \<times> builder" where
  "get_node_id st = (node_name (node_counter st), st\<lparr>node_counter := node_counter st + 1\<rparr>)"

definition add_node :: "string \<Rightarrow> shape \<Rightarrow> builder \<Rightarrow> string \<times> builder" where
  "add_node lbl shp st =
     (let (node_id, st1) = get_node_id st
      in (node_id, st1\<lparr>nodes := AList.update node_id \<lparr>label = lbl, shape = shp\<rparr> (nodes st1)\<rparr>))"

text \<open>\<^verbatim>\<open>edges.append(e)\<close>\<close>

definition add_edge :: "edge \<Rightarrow> builder \<Rightarrow> builder" where
  "add_edge e st = st\<lparr>edges := edges st @ [e]\<rparr>"

text \<open>
  Python's truth test on a value that is \<^verbatim>\<open>None\<close> or a string: \<^verbatim>\<open>None\<close> and the empty
  string are false.
\<close>

fun truthy :: "string option \<Rightarrow> bool" where
  "truthy None = False"
| "truthy (Some s) = (s \<noteq> [])"

section \<open>The recursive visitor\<close>

text \<open>
  \<^verbatim>\<open>visit\<close> calls itself for the statements of a branch, of a loop body, of an inlined
  callee and of a generic node. Inlining follows the function table, so a function that
  calls itself is inlined without end and the interpreter raises \<^verbatim>\<open>RecursionError\<close>.
  The first numeric argument is the number of nested activations of \<^verbatim>\<open>visit\<close> that are
  still available: with none left the call raises. A raise anywhere abandons the build.

  \<open>visit_guarded\<close> is the loop
  \<^verbatim>\<open>for child in xs: if last: last = visit(child, last, ...)\<close>;
  \<open>visit_inline\<close> is the loop over a callee's body, which has no such test.
\<close>


function (sequential) visit :: "function_table \<Rightarrow> nat \<Rightarrow> node \<Rightarrow> string option \<Rightarrow> string option \<Rightarrow> string option
      \<Rightarrow> builder \<Rightarrow> error + (string option \<times> builder)"
  and visit_guarded :: "function_table \<Rightarrow> nat \<Rightarrow> node list \<Rightarrow> string option \<Rightarrow> string option
      \<Rightarrow> string option \<Rightarrow> builder \<Rightarrow> error + (string option \<times> builder)"
  and visit_inline :: "function_table \<Rightarrow> nat \<Rightarrow> node list \<Rightarrow> string option \<Rightarrow> string option
      \<Rightarrow> string option \<Rightarrow> builder \<Rightarrow> error + (string option \<times> builder)"
where
  "visit functions 0 n parent_id loop_start_id loop_exit_id st = Inl RecursionError"
| "visit functions (Suc d) n parent_id loop_start_id loop_exit_id st =
    (case n of
       Assign lbl \<Rightarrow>
         (let (current_id, st1) = add_node lbl (''[/'', ''/]'') st
          in Inr (Some current_id, add_edge (parent_id, Some current_id, '''') st1))
     | AugAssign lbl \<Rightarrow>
         (let (current_id, st1) = add_node lbl (''[/'', ''/]'') st
          in Inr (Some current_id, add_edge (parent_id, Some current_id, '''') st1))
     | Expr callee lbl \<Rightarrow>
         (let plain = (\<lambda>shp.
                let (current_id, st1) = add_node lbl shp st
                in Inr (Some current_id, add_edge (parent_id, Some current_id, '''') st1))
          in case callee of
               None \<Rightarrow> plain (''['', '']'')
             | Some func_id \<Rightarrow>
                 if func_id \<in> set [''input'', ''print''] then plain (''[/'', ''/]'')
                 else (case map_of functions func_id of
                         None \<Rightarrow> plain (''['', '']'')
                       | Some entry \<Rightarrow>
                           (let (current_id, st1) = add_node lbl (''['', '']'') st;
                                st2 = add_edge (parent_id, Some current_id, '''') st1
                            in visit_inline functions d (body entry) (Some current_id)
                                 loop_start_id loop_exit_id st2)))
     | Return lbl \<Rightarrow>
         (let (current_id, st1) = add_node lbl (''('', '')'') st
          in Inr (None, add_edge (parent_id, Some current_id, '''') st1))
     | If test then_body orelse \<Rightarrow>
         (let (cond_id, st1) = add_node (''if '' @ test) (''{'', ''}'') st;
              st2 = add_edge (parent_id, Some cond_id, '''') st1
          in case visit_guarded functions d then_body (Some cond_id)
                    loop_start_id loop_exit_id st2 of
               Inl e \<Rightarrow> Inl e
             | Inr (true_end, st3) \<Rightarrow>
                (case visit_guarded functions d orelse (Some cond_id)
                        loop_start_id loop_exit_id st3 of
                   Inl e \<Rightarrow> Inl e
                 | Inr (false_end, st4) \<Rightarrow>
                     if \<not> truthy true_end \<and> \<not> truthy false_end then Inr (None, st4)
                     else
                       (let (merge_id, st5) = add_node '' '' (''(('', ''))'') st4;
                            st6 = (if truthy true_end
                                   then add_edge (true_end, Some merge_id, ''Yes'') st5 else st5);
                            st7 = (if truthy false_end
                                   then add_edge (false_end, Some merge_id, ''No'') st6 else st6);
                            st8 = (if then_body = []
                                   then add_edge (Some cond_id, Some merge_id, ''Yes'') st7
                                   else st7);
                            st9 = (if orelse = []
                                   then add_edge (Some cond_id, Some merge_id, ''No'') st8
                                   else st8)
                        in Inr (Some merge_id, st9))))
     | For target loop_body orelse \<Rightarrow>
         (let (loop_id, st1) = add_node (''For '' @ target) (''{{'', ''}}'') st;
              st2 = add_edge (parent_id, Some loop_id, '''') st1;
              (after_loop_id, st3) = add_node '' '' (''(('', ''))'') st2
          in case visit_guarded functions d loop_body (Some loop_id) (Some loop_id)
                    (Some after_loop_id) st3 of
               Inl e \<Rightarrow> Inl e
             | Inr (body_end, st4) \<Rightarrow>
                (let st5 = (if truthy body_end
                            then add_edge (body_end, Some loop_id, ''Loop'') st4 else st4)
                 in Inr (Some after_loop_id,
                         add_edge (Some loop_id, Some after_loop_id, ''End Loop'') st5)))
     | While test loop_body orelse \<Rightarrow>
         (let (loop_id, st1) = add_node (''While '' @ test) (''{{'', ''}}'') st;
              st2 = add_edge (parent_id, Some loop_id, '''') st1;
              (after_loop_id, st3) = add_node '' '' (''(('', ''))'') st2
          in case visit_guarded functions d loop_body (Some loop_id) (Some loop_id)
                    (Some after_loop_id) st3 of
               Inl e \<Rightarrow> Inl e
             | Inr (body_end, st4) \<Rightarrow>
                (let st5 = (if truthy body_end
                            then add_edge (body_end, Some loop_id, ''Loop'') st4 else st4)
                 in Inr (Some after_loop_id,
                         add_edge (Some loop_id, Some after_loop_id, ''End Loop'') st5)))
     | Break \<Rightarrow>
         Inr (None, if truthy loop_exit_id
                    then add_edge (parent_id, loop_exit_id, ''break'') st else st)
     | Continue \<Rightarrow>
         Inr (None, if truthy loop_start_id
                    then add_edge (parent_id, loop_start_id, ''continue'') st else st)
     | FunctionDef name params fbody \<Rightarrow>
         visit_guarded functions d (iter_child_nodes n) parent_id loop_start_id loop_exit_id st
     | Other children \<Rightarrow>
         visit_guarded functions d (iter_child_nodes n) parent_id loop_start_id loop_exit_id st)"
| "visit_guarded functions d [] last_id loop_start_id loop_exit_id st = Inr (last_id, st)"
| "visit_guarded functions d (child # rest) last_id loop_start_id loop_exit_id st =
     (if truthy last_id
      then (case visit functions d child last_id loop_start_id loop_exit_id st of
              Inl e \<Rightarrow> Inl e
            | Inr (r, st1) \<Rightarrow> visit_guarded functions d rest r loop_start_id loop_exit_id st1)
      else visit_guarded functions d rest last_id loop_start_id loop_exit_id st)"
| "visit_inline functions d [] last_id loop_start_id loop_exit_id st = Inr (last_id, st)"
| "visit_inline functions d (func_stmt # rest) last_id loop_start_id loop_exit_id st =
     (case visit functions d func_stmt last_id loop_start_id loop_exit_id st of
        Inl e \<Rightarrow> Inl e
      | Inr (r, st1) \<Rightarrow> visit_inline functions d rest r loop_start_id loop_exit_id st1)"

  by pat_completeness auto

text \<open>
  A call from \<open>visit\<close> goes down one activation; the two loops call \<open>visit\<close> with the
  activations they have and themselves on a shorter list.
\<close>

termination
  apply (relation "inv_image (less_than <*lex*> less_than)
     (\<lambda>x. case x of
        Inl (f, d, n, p, ls, le, st) \<Rightarrow> (d, 0)
      | Inr (Inl (f, d, xs, p, ls, le, st)) \<Rightarrow> (d, Suc (length xs))
      | Inr (Inr (f, d, xs, p, ls, le, st)) \<Rightarrow> (d, Suc (length xs)))")
  apply (simp_all add: wf_lex_prod)
  done

section \<open>The main parsing logic\<close>

fun is_function_def :: "node \<Rightarrow> bool" where
  "is_function_def (FunctionDef name params fbody) = True"
| "is_function_def n = False"

text \<open>
  \<^verbatim>\<open>functions[node.name] = {...}\<close> for every top-level definition, in source order: a
  name defined twice keeps its first position and takes the later body.
\<close>

definition collect_functions :: "node list \<Rightarrow> function_table" where
  "collect_functions tree =
     foldl (\<lambda>functions n. case n of
               FunctionDef name params fbody \<Rightarrow>
                 AList.update name \<lparr>body = fbody, args = params\<rparr> functions
             | _ \<Rightarrow> functions) [] tree"

definition empty_builder :: builder where
  "empty_builder = \<lparr>nodes = [], edges = [], node_counter = 0\<rparr>"

text \<open>
  The main parsing logic of \<^verbatim>\<open>parse_code_to_ast\<close>, on \<^verbatim>\<open>tree.body\<close>, up to the
  point where the End node is created: the function table, the Start node and the visit
  of the main body, or of the first function's body when there is no main body. The
  numeric argument is the number of nested activations of \<^verbatim>\<open>visit\<close> available to the
  calls made here. The result is \<^verbatim>\<open>last_node_id\<close> and the store.
\<close>

definition visit_program :: "nat \<Rightarrow> node list \<Rightarrow> error + (string option \<times> builder)" where
  "visit_program d tree =
     (let functions = collect_functions tree;
          (start_id, st1) = add_node ''Start'' (''(('', ''))'') empty_builder;
          main_body = filter (\<lambda>n. \<not> is_function_def n) tree
      in if main_body = [] \<and> functions \<noteq> []
         then (let (first_func_name, entry) = hd functions;
                   (func_def_id, st2) =
                      add_node (''def '' @ first_func_name @ ''(...)'') (''[['', '']]'') st1;
                   st3 = add_edge (Some start_id, Some func_def_id, '''') st2
               in visit_guarded functions d (body entry) (Some func_def_id) None None st3)
         else visit_guarded functions d main_body (Some start_id) None None st1)"

text \<open>The End node, its edge, and \<^verbatim>\<open>return nodes, edges\<close>.\<close>

definition build_graph :: "nat \<Rightarrow> node list \<Rightarrow> error + ((string \<times> node_data) list \<times> edge list)" where
  "build_graph d tree =
     (case visit_program d tree of
        Inl e \<Rightarrow> Inl e
      | Inr (last_node_id, st4) \<Rightarrow>
          (let (end_id, st5) = add_node ''End'' (''(('', ''))'') st4;
               st6 = (if truthy last_node_id
                      then add_edge (last_node_id, Some end_id, '''') st5 else st5)
           in Inr (nodes st6, edges st6)))"

text \<open>
  \<^verbatim>\<open>ast.parse\<close> is the standard library's parser: a parameter, which gives the
  tree's body or raises.
\<close>

definition parse_code_to_ast :: "(string \<Rightarrow> error + node list) \<Rightarrow> nat \<Rightarrow> string
      \<Rightarrow> error + ((string \<times> node_data) list \<times> edge list)" where
  "parse_code_to_ast ast_parse d code =
     (case ast_parse code of Inl e \<Rightarrow> Inl e | Inr tree \<Rightarrow> build_graph d tree)"

section \<open>The serializer\<close>

text \<open>\<^verbatim>\<open>label.replace('"', '&quot;')\<close>\<close>

definition escape_quotes :: "string \<Rightarrow> string" where
  "escape_quotes s = concat (map (\<lambda>c. if c = CHR 0x22 then ''&quot;'' else [c]) s)"

text \<open>How an f-string renders a value that is a string or \<^verbatim>\<open>None\<close>.\<close>

fun py_str :: "string option \<Rightarrow> string" where
  "py_str None = ''None''"
| "py_str (Some s) = s"

definition node_line :: "string \<times> node_data \<Rightarrow> string" where
  "node_line nd =
     (let (node_id, data) = nd;
          (shape_start, shape_end) = shape data
      in ''    '' @ node_id @ shape_start @ [CHR 0x22] @ escape_quotes (label data)
           @ [CHR 0x22] @ shape_end @ [CHR 0x0A])"

definition edge_line :: "edge \<Rightarrow> string" where
  "edge_line e =
     (let (src, tgt, lbl) = e
      in if truthy src \<and> truthy tgt
         then (if lbl \<noteq> []
               then ''    '' @ py_str src @ '' -->|'' @ lbl @ ''| '' @ py_str tgt @ [CHR 0x0A]
               else ''    '' @ py_str src @ '' --> '' @ py_str tgt @ [CHR 0x0A])
         else [])"

definition serialize :: "(string \<times> node_data) list \<Rightarrow> edge list \<Rightarrow> string" where
  "serialize ns es =
     ''graph TD'' @ [CHR 0x0A] @ concat (map node_line ns) @ concat (map edge_line es)"

definition fallback :: string where
  "fallback = ''graph TD'' @ [CHR 0x0A] @ ''    A[Error: Could not parse code]''"

text \<open>
  The \<^verbatim>\<open>try\<close> of \<^verbatim>\<open>generate_mermaid_flowchart\<close> covers the parse, the build and the
  rendering; every error of the model is an \<^verbatim>\<open>Exception\<close>, which the handler catches.
  The handler first prints the caught exception with its traceback and then returns the
  fallback text. That \<^verbatim>\<open>print\<close> runs outside any \<^verbatim>\<open>try\<close>: it writes to the process's
  standard output and returns or raises (\<^verbatim>\<open>UnicodeEncodeError\<close> when the stream cannot
  encode the message, which quotes the source line of a syntax error). It is a parameter,
  \<open>py_print\<close>, from the caught exception to the outcome; an exception it raises reaches
  the caller.
\<close>

definition generate_mermaid_flowchart ::
  "(string \<Rightarrow> error + node list) \<Rightarrow> (error \<Rightarrow> error + unit) \<Rightarrow> nat \<Rightarrow> string \<Rightarrow> error + string" where
  "generate_mermaid_flowchart ast_parse py_print d code =
     (case parse_code_to_ast ast_parse d code of
        Inl e \<Rightarrow> (case py_print e of Inl e' \<Rightarrow> Inl e' | Inr u \<Rightarrow> Inr fallback)
      | Inr (ns, es) \<Rightarrow> Inr (serialize ns es))"

section \<open>Where a break is visited\<close>


section \<open>Invariants of the store\<close>

text \<open>
  The node ids of a store are \<open>N0\<close>, \<open>N1\<close>, ... in the order of the list, up to the
  counter (\<open>well_formed\<close>); every edge of the store points to a node of the store
  (\<open>targets_known\<close>). \<open>grows st st'\<close>: the store \<open>st'\<close> keeps both, and its nodes and
  edges are those of \<open>st\<close> followed by new ones, where a new node with the round shape of
  the sentinels carries the blank label of a merge or loop-exit node (\<open>inner_ok\<close>).
\<close>

definition well_formed :: "builder \<Rightarrow> bool" where
  "well_formed st \<longleftrightarrow> map fst (nodes st) = map node_name [0..<node_counter st]"

definition has_node :: "builder \<Rightarrow> string option \<Rightarrow> bool" where
  "has_node st c \<longleftrightarrow> c \<in> Some ` fst ` set (nodes st)"

definition targets_known :: "builder \<Rightarrow> bool" where
  "targets_known st \<longleftrightarrow> (\<forall>e \<in> set (edges st). has_node st (fst (snd e)))"

definition known :: "builder \<Rightarrow> string option \<Rightarrow> bool" where
  "known st c \<longleftrightarrow> (truthy c \<longrightarrow> has_node st c)"

definition inner_ok :: "(string \<times> node_data) list \<Rightarrow> bool" where
  "inner_ok ns \<longleftrightarrow> (\<forall>nd \<in> snd ` set ns. shape nd = (''(('', ''))'') \<longrightarrow> label nd = '' '')"

definition store_ok :: "builder \<Rightarrow> bool" where
  "store_ok st \<longleftrightarrow> well_formed st \<and> targets_known st"

definition grows :: "builder \<Rightarrow> builder \<Rightarrow> bool" where
  "grows st st' \<longleftrightarrow> store_ok st' \<and> (\<exists>ns. nodes st' = nodes st @ ns \<and> inner_ok ns)
       \<and> (\<exists>es. edges st' = edges st @ es)"

section \<open>Node ids are distinct\<close>

lemma digit_char_inj: "m < 10 \<Longrightarrow> n < 10 \<Longrightarrow> digit_char m = digit_char n \<Longrightarrow> m = n"
proof -
  assume a: "m < 10" "n < 10" "digit_char m = digit_char n"
  have d: "distinct ''0123456789''" by simp
  have l: "length ''0123456789'' = 10" by simp
  from a l have "m < length ''0123456789''" "n < length ''0123456789''" by simp_all
  with d a(3) show ?thesis
    unfolding digit_char_def by (simp only: nth_eq_iff_index_eq)
qed

lemma str_nat_nonempty: "str_nat n \<noteq> []"
  by (subst str_nat.simps) simp

lemma str_nat_inj: "str_nat m = str_nat n \<Longrightarrow> m = n"
proof (induction m arbitrary: n rule: str_nat.induct)
  case (1 m)
  show ?case
  proof (cases "m < 10")
    case True
    then have sm: "str_nat m = [digit_char m]" by (subst str_nat.simps) simp
    show ?thesis
    proof (cases "n < 10")
      case nt: True
      then have "str_nat n = [digit_char n]" by (subst str_nat.simps) simp
      with sm "1.prems" have "digit_char m = digit_char n" by simp
      with True nt show ?thesis by (rule digit_char_inj)
    next
      case False
      then have "str_nat n = str_nat (n div 10) @ [digit_char (n mod 10)]"
        by (subst str_nat.simps) simp
      with sm "1.prems" have "str_nat (n div 10) = []" by simp
      with str_nat_nonempty show ?thesis by blast
    qed
  next
    case False
    then have sm: "str_nat m = str_nat (m div 10) @ [digit_char (m mod 10)]"
      by (subst str_nat.simps) simp
    show ?thesis
    proof (cases "n < 10")
      case True
      then have "str_nat n = [digit_char n]" by (subst str_nat.simps) simp
      with sm "1.prems" have "str_nat (m div 10) = []" by simp
      with str_nat_nonempty show ?thesis by blast
    next
      case nf: False
      then have "str_nat n = str_nat (n div 10) @ [digit_char (n mod 10)]"
        by (subst str_nat.simps) simp
      with sm "1.prems" have e: "str_nat (m div 10) = str_nat (n div 10)"
        and dg: "digit_char (m mod 10) = digit_char (n mod 10)" by simp_all
      from "1.IH" [OF False e] have q: "m div 10 = n div 10" .
      have "m mod 10 = n mod 10" by (rule digit_char_inj [OF _ _ dg]) simp_all
      with q show ?thesis by (metis div_mult_mod_eq)
    qed
  qed
qed

lemma node_name_inj: "node_name m = node_name n \<Longrightarrow> m = n"
  by (simp add: node_name_def str_nat_inj)

lemma node_name_nonempty: "node_name n \<noteq> []"
  by (simp add: node_name_def)

lemma update_fresh: "k \<notin> fst ` set xs \<Longrightarrow> AList.update k v xs = xs @ [(k, v)]"
  by (induction xs) auto

section \<open>What a visit does to the store\<close>

lemma grows_refl: "store_ok st \<Longrightarrow> grows st st"
  by (simp add: grows_def inner_ok_def)

lemma inner_ok_append: "inner_ok xs \<Longrightarrow> inner_ok ys \<Longrightarrow> inner_ok (xs @ ys)"
  by (auto simp: inner_ok_def)

lemma grows_trans: "grows a b \<Longrightarrow> grows b c \<Longrightarrow> grows a c"
  unfolding grows_def by (auto intro: inner_ok_append)

lemma grows_store_ok: "grows st st' \<Longrightarrow> store_ok st'"
  by (simp add: grows_def)

lemma has_node_mono: "grows st st' \<Longrightarrow> has_node st c \<Longrightarrow> has_node st' c"
  by (force simp: grows_def has_node_def)

lemma known_mono: "grows st st' \<Longrightarrow> known st c \<Longrightarrow> known st' c"
  by (auto simp: known_def dest: has_node_mono)

lemma known_None: "known st None"
  by (simp add: known_def)

lemma has_node_known: "has_node st c \<Longrightarrow> known st c"
  by (simp add: known_def)

lemma fresh_name: "well_formed st \<Longrightarrow> node_name (node_counter st) \<notin> fst ` set (nodes st)"
proof
  assume w: "well_formed st" and "node_name (node_counter st) \<in> fst ` set (nodes st)"
  then have "node_name (node_counter st) \<in> set (map fst (nodes st))" by simp
  with w have "node_name (node_counter st) \<in> set (map node_name [0..<node_counter st])"
    by (simp only: well_formed_def)
  then obtain i where "i < node_counter st" "node_name i = node_name (node_counter st)"
    by auto
  then show False by (auto dest: node_name_inj)
qed

lemma add_node_appends:
  assumes "well_formed st"
  shows "add_node lbl shp st =
    (node_name (node_counter st),
     st\<lparr>node_counter := Suc (node_counter st),
        nodes := nodes st @ [(node_name (node_counter st), \<lparr>label = lbl, shape = shp\<rparr>)]\<rparr>)"
  using fresh_name [OF assms]
  by (simp add: add_node_def get_node_id_def update_fresh)

lemma add_node_grows:
  assumes i: "store_ok st" and s: "shp = (''(('', ''))'') \<longrightarrow> lbl = '' ''"
    and a: "add_node lbl shp st = (k, st1)"
  shows "grows st st1" and "has_node st1 (Some k)" and "k \<noteq> []"
proof -
  from i have w: "well_formed st" and t: "targets_known st" by (simp_all add: store_ok_def)
  note e = a [unfolded add_node_appends [OF w]]
  from e have k: "k = node_name (node_counter st)" by simp
  from e have st1: "st1 = st\<lparr>node_counter := Suc (node_counter st),
        nodes := nodes st @ [(k, \<lparr>label = lbl, shape = shp\<rparr>)]\<rparr>" by auto
  from w have "well_formed st1" by (simp add: st1 well_formed_def k)
  moreover from t have "targets_known st1"
    by (auto simp: st1 targets_known_def has_node_def)
  ultimately show "grows st st1" using s
    by (simp add: grows_def store_ok_def st1 inner_ok_def)
  show "has_node st1 (Some k)" by (simp add: st1 has_node_def)
  show "k \<noteq> []" by (simp add: k node_name_nonempty)
qed

lemma add_edge_grows:
  assumes i: "store_ok st" and h: "has_node st t"
  shows "grows st (add_edge (s, t, l) st)"
  using i h
  by (auto simp: grows_def store_ok_def add_edge_def well_formed_def targets_known_def
      has_node_def inner_ok_def)

lemma has_node_add_edge [simp]: "has_node (add_edge e st) c = has_node st c"
  by (simp add: has_node_def add_edge_def)

lemma node_edge_grows:
  assumes "store_ok st" and "shp = (''(('', ''))'') \<longrightarrow> lbl = '' ''"
    and "add_node lbl shp st = (k, st1)"
  shows "grows st (add_edge (p, Some k, l) st1)"
proof -
  note n = add_node_grows [OF assms]
  from n(1) have "store_ok st1" by (rule grows_store_ok)
  then have "grows st1 (add_edge (p, Some k, l) st1)" using n(2) by (rule add_edge_grows)
  with n(1) show ?thesis by (rule grows_trans)
qed

lemma maybe_edge_grows:
  assumes "store_ok st" and "has_node st t"
  shows "grows st (if b then add_edge (s, t, l) st else st)"
  using assms by (simp add: add_edge_grows grows_refl)

lemma guarded_grows:
  assumes V: "\<And>n p st r st'. store_ok st \<Longrightarrow> known st ls \<Longrightarrow> known st le \<Longrightarrow>
      visit fs d n p ls le st = Inr (r, st') \<Longrightarrow> grows st st'"
  shows "store_ok st \<Longrightarrow> known st ls \<Longrightarrow> known st le \<Longrightarrow>
      visit_guarded fs d xs p ls le st = Inr (r, st') \<Longrightarrow> grows st st'"
proof (induction xs arbitrary: p st)
  case Nil
  then show ?case by (simp add: grows_refl)
next
  case (Cons x xs)
  show ?case
  proof (cases "truthy p")
    case True
    with Cons.prems(4) obtain r1 st1 where
      v: "visit fs d x p ls le st = Inr (r1, st1)" and
      g: "visit_guarded fs d xs r1 ls le st1 = Inr (r, st')"
      by (auto split: sum.splits)
    from V [OF Cons.prems(1-3) v] have g1: "grows st st1" .
    have "grows st1 st'"
      by (rule Cons.IH [OF grows_store_ok [OF g1] known_mono [OF g1 Cons.prems(2)]
            known_mono [OF g1 Cons.prems(3)] g])
    with g1 show ?thesis by (rule grows_trans)
  next
    case False
    with Cons.prems(4) have "visit_guarded fs d xs p ls le st = Inr (r, st')" by simp
    then show ?thesis by (rule Cons.IH [OF Cons.prems(1-3)])
  qed
qed

lemma inline_grows:
  assumes V: "\<And>n p st r st'. store_ok st \<Longrightarrow> known st ls \<Longrightarrow> known st le \<Longrightarrow>
      visit fs d n p ls le st = Inr (r, st') \<Longrightarrow> grows st st'"
  shows "store_ok st \<Longrightarrow> known st ls \<Longrightarrow> known st le \<Longrightarrow>
      visit_inline fs d xs p ls le st = Inr (r, st') \<Longrightarrow> grows st st'"
proof (induction xs arbitrary: p st)
  case Nil
  then show ?case by (simp add: grows_refl)
next
  case (Cons x xs)
  from Cons.prems(4) obtain r1 st1 where
    v: "visit fs d x p ls le st = Inr (r1, st1)" and
    g: "visit_inline fs d xs r1 ls le st1 = Inr (r, st')"
    by (auto split: sum.splits)
  from V [OF Cons.prems(1-3) v] have g1: "grows st st1" .
  have "grows st1 st'"
    by (rule Cons.IH [OF grows_store_ok [OF g1] known_mono [OF g1 Cons.prems(2)]
          known_mono [OF g1 Cons.prems(3)] g])
  with g1 show ?case by (rule grows_trans)
qed

lemma loop_grows:
  assumes G: "\<And>xs p ls le st r st'. store_ok st \<Longrightarrow> known st ls \<Longrightarrow> known st le \<Longrightarrow>
      visit_guarded fs d xs p ls le st = Inr (r, st') \<Longrightarrow> grows st st'"
    and s: "store_ok st"
    and n: "n = For t loop_body eb \<or> n = While t loop_body eb"
    and e: "visit fs (Suc d) n p ls le st = Inr (r, st')"
  shows "grows st st'"
proof -
  define lbl where "lbl = (if n = For t loop_body eb then ''For '' @ t else ''While '' @ t)"
  obtain h st1 where a1: "add_node lbl (''{{'', ''}}'') st = (h, st1)" by fastforce
  let ?st2 = "add_edge (p, Some h, '''') st1"
  obtain x st3 where a3: "add_node '' '' (''(('', ''))'') ?st2 = (x, st3)" by fastforce
  from e a1 a3 n obtain be st4 where
    v: "visit_guarded fs d loop_body (Some h) (Some h) (Some x) st3 = Inr (be, st4)" and
    f: "st' = add_edge (Some h, Some x, ''End Loop'')
              (if truthy be then add_edge (be, Some h, ''Loop'') st4 else st4)"
    by (auto simp: lbl_def Let_def split: sum.splits)
  have h1: "has_node st1 (Some h)" by (rule add_node_grows(2) [OF s _ a1]) simp
  have g2: "grows st ?st2" by (rule node_edge_grows [OF s _ a1]) simp
  have s2: "store_ok ?st2" using g2 by (rule grows_store_ok)
  have g3: "grows ?st2 st3" by (rule add_node_grows(1) [OF s2 _ a3]) simp
  have hx: "has_node st3 (Some x)" by (rule add_node_grows(2) [OF s2 _ a3]) simp
  have hh: "has_node st3 (Some h)" using g3 h1 by (simp add: has_node_mono)
  have g4: "grows st3 st4"
    by (rule G [OF grows_store_ok [OF g3] has_node_known [OF hh] has_node_known [OF hx] v])
  let ?st5 = "if truthy be then add_edge (be, Some h, ''Loop'') st4 else st4"
  have g5: "grows st4 ?st5"
    by (rule maybe_edge_grows [OF grows_store_ok [OF g4] has_node_mono [OF g4 hh]])
  have "has_node ?st5 (Some x)" using has_node_mono [OF g4 hx] by simp
  then have g6: "grows ?st5 st'" unfolding f
    by (rule add_edge_grows [OF grows_store_ok [OF g5]])
  show ?thesis
    by (rule grows_trans [OF g2 grows_trans [OF g3 grows_trans [OF g4 grows_trans [OF g5 g6]]]])
qed

lemma cond_grows:
  assumes G: "\<And>xs p ls le st r st'. store_ok st \<Longrightarrow> known st ls \<Longrightarrow> known st le \<Longrightarrow>
      visit_guarded fs d xs p ls le st = Inr (r, st') \<Longrightarrow> grows st st'"
    and s: "store_ok st" and ks: "known st ls" and ke: "known st le"
    and e: "visit fs (Suc d) (If test tb eb) p ls le st = Inr (r, st')"
  shows "grows st st'"
proof -
  obtain c st1 where a1: "add_node (''if '' @ test) (''{'', ''}'') st = (c, st1)" by fastforce
  let ?st2 = "add_edge (p, Some c, '''') st1"
  have g2: "grows st ?st2" by (rule node_edge_grows [OF s _ a1]) simp
  have h2: "has_node ?st2 (Some c)" using add_node_grows(2) [OF s _ a1] by simp
  from e a1 obtain te st3 where
    v1: "visit_guarded fs d tb (Some c) ls le ?st2 = Inr (te, st3)"
    by (auto simp: Let_def split: sum.splits)
  have g3: "grows ?st2 st3"
    by (rule G [OF grows_store_ok [OF g2] known_mono [OF g2 ks] known_mono [OF g2 ke] v1])
  have g03: "grows st st3" using g2 g3 by (rule grows_trans)
  from e a1 v1 obtain fe st4 where
    v2: "visit_guarded fs d eb (Some c) ls le st3 = Inr (fe, st4)"
    by (auto simp: Let_def split: sum.splits)
  have g4: "grows st3 st4"
    by (rule G [OF grows_store_ok [OF g03] known_mono [OF g03 ks] known_mono [OF g03 ke] v2])
  have g04: "grows st st4" using g03 g4 by (rule grows_trans)
  have s4: "store_ok st4" using g04 by (rule grows_store_ok)
  have h4: "has_node st4 (Some c)" by (rule has_node_mono [OF g4 has_node_mono [OF g3 h2]])
  show ?thesis
  proof (cases "truthy te \<or> truthy fe")
    case False
    with e a1 v1 v2 have "st' = st4" by (simp add: Let_def)
    with g04 show ?thesis by simp
  next
    case True
    obtain m st5 where a5: "add_node '' '' (''(('', ''))'') st4 = (m, st5)" by fastforce
    have g5: "grows st4 st5" by (rule add_node_grows(1) [OF s4 _ a5]) simp
    have h5: "has_node st5 (Some m)" by (rule add_node_grows(2) [OF s4 _ a5]) simp
    let ?st6 = "if truthy te then add_edge (te, Some m, ''Yes'') st5 else st5"
    let ?st7 = "if truthy fe then add_edge (fe, Some m, ''No'') ?st6 else ?st6"
    let ?st8 = "if tb = [] then add_edge (Some c, Some m, ''Yes'') ?st7 else ?st7"
    let ?st9 = "if eb = [] then add_edge (Some c, Some m, ''No'') ?st8 else ?st8"
    from e a1 v1 v2 a5 True have f: "st' = ?st9"
      by (auto simp: Let_def split: if_splits)
    have g6: "grows st5 ?st6" by (rule maybe_edge_grows [OF grows_store_ok [OF g5] h5])
    have h6: "has_node ?st6 (Some m)" using h5 by simp
    have g7: "grows ?st6 ?st7" by (rule maybe_edge_grows [OF grows_store_ok [OF g6] h6])
    have h7: "has_node ?st7 (Some m)" using h5 by simp
    have g8: "grows ?st7 ?st8" by (rule maybe_edge_grows [OF grows_store_ok [OF g7] h7])
    have h8: "has_node ?st8 (Some m)" using h5 by simp
    have g9: "grows ?st8 ?st9" by (rule maybe_edge_grows [OF grows_store_ok [OF g8] h8])
    show ?thesis unfolding f
      by (rule grows_trans [OF g04 grows_trans [OF g5 grows_trans [OF g6
            grows_trans [OF g7 grows_trans [OF g8 g9]]]]])
  qed
qed

lemma plain_grows:
  assumes "store_ok st" and "shp = (''(('', ''))'') \<longrightarrow> lbl = '' ''"
   and "add_node lbl shp st = (k, st1)" and "st' = add_edge (p, Some k, '''') st1"
  shows "grows st st'"
  using node_edge_grows [OF assms(1-3)] assms(4) by simp

lemma visit_grows:
  "store_ok st \<Longrightarrow> known st ls \<Longrightarrow> known st le \<Longrightarrow>
     visit fs d n p ls le st = Inr (r, st') \<Longrightarrow> grows st st'"
proof (induction d arbitrary: n p ls le st r st')
  case 0
  then show ?case by simp
next
  case (Suc d)
  have G: "\<And>xs p ls le st r st'. store_ok st \<Longrightarrow> known st ls \<Longrightarrow> known st le \<Longrightarrow>
      visit_guarded fs d xs p ls le st = Inr (r, st') \<Longrightarrow> grows st st'"
    by (rule guarded_grows [OF Suc.IH])
  have I: "\<And>xs p ls le st r st'. store_ok st \<Longrightarrow> known st ls \<Longrightarrow> known st le \<Longrightarrow>
      visit_inline fs d xs p ls le st = Inr (r, st') \<Longrightarrow> grows st st'"
    by (rule inline_grows [OF Suc.IH])
  note s = Suc.prems(1) and ks = Suc.prems(2) and ke = Suc.prems(3) and e = Suc.prems(4)
  show ?case
  proof (cases n)
    case (Assign lbl)
    obtain k st1 where a: "add_node lbl (''[/'', ''/]'') st = (k, st1)" by fastforce
    with e Assign have f: "st' = add_edge (p, Some k, '''') st1" by auto
    show ?thesis by (rule plain_grows [OF s _ a f]) simp
  next
    case (AugAssign lbl)
    obtain k st1 where a: "add_node lbl (''[/'', ''/]'') st = (k, st1)" by fastforce
    with e AugAssign have f: "st' = add_edge (p, Some k, '''') st1" by auto
    show ?thesis by (rule plain_grows [OF s _ a f]) simp
  next
    case (Expr callee lbl)
    show ?thesis
    proof (cases "\<exists>f entry. callee = Some f \<and> f \<notin> set [''input'', ''print'']
                     \<and> map_of fs f = Some entry")
      case True
      then obtain f entry where c: "callee = Some f" "f \<notin> set [''input'', ''print'']"
           "map_of fs f = Some entry" by blast
      obtain k st1 where a: "add_node lbl (''['', '']'') st = (k, st1)" by fastforce
      let ?st2 = "add_edge (p, Some k, '''') st1"
      from e Expr c a have v: "visit_inline fs d (body entry) (Some k) ls le ?st2 = Inr (r, st')"
        by simp
      have g2: "grows st ?st2" by (rule node_edge_grows [OF s _ a]) simp
      have "grows ?st2 st'"
        by (rule I [OF grows_store_ok [OF g2] known_mono [OF g2 ks] known_mono [OF g2 ke] v])
      with g2 show ?thesis by (rule grows_trans)
    next
      case False
      define shp where "shp = (if \<exists>f. callee = Some f \<and> f \<in> set [''input'', ''print'']
                               then (''[/'', ''/]'') else (''['', '']''))"
      obtain k st1 where a: "add_node lbl shp st = (k, st1)" by fastforce
      have n: "shp \<noteq> (''(('', ''))'')" by (simp add: shp_def)
      from e Expr False a have f: "st' = add_edge (p, Some k, '''') st1"
        by (auto simp: shp_def split: option.splits if_splits)
      show ?thesis by (rule plain_grows [OF s _ a f]) (simp add: n)
    qed
  next
    case (Return lbl)
    obtain k st1 where a: "add_node lbl (''('', '')'') st = (k, st1)" by fastforce
    with e Return have f: "st' = add_edge (p, Some k, '''') st1" by auto
    show ?thesis by (rule plain_grows [OF s _ a f]) simp
  next
    case (If test tb eb)
    with e show ?thesis by (auto intro: cond_grows [OF G s ks ke])
  next
    case (For target b eb)
    then have nn: "n = For target b eb \<or> n = While target b eb" by simp
    show ?thesis by (rule loop_grows [where fs = fs and d = d, OF _ s nn e]) (rule G)
  next
    case (While test b eb)
    then have nn: "n = For test b eb \<or> n = While test b eb" by simp
    show ?thesis by (rule loop_grows [where fs = fs and d = d, OF _ s nn e]) (rule G)
  next
    case Break
    with e have "st' = (if truthy le then add_edge (p, le, ''break'') st else st)" by simp
    with s ke show ?thesis by (auto simp: known_def intro: add_edge_grows grows_refl)
  next
    case Continue
    with e have "st' = (if truthy ls then add_edge (p, ls, ''continue'') st else st)" by simp
    with s ks show ?thesis by (auto simp: known_def intro: add_edge_grows grows_refl)
  next
    case (FunctionDef name params fbody)
    with e show ?thesis by (auto intro: G [OF s ks ke])
  next
    case (Other children)
    with e show ?thesis by (auto intro: G [OF s ks ke])
  qed
qed

section \<open>Facts about the program as a whole\<close>

lemmas build_defs = build_graph_def visit_program_def collect_functions_def empty_builder_def
  add_node_def get_node_id_def add_edge_def node_name_def digit_char_def

lemmas eval_defs = build_defs str_nat.simps has_node_def

lemma add_node_fst: "fst (add_node lbl shp st) = node_name (node_counter st)"
  by (simp add: add_node_def get_node_id_def)

lemma add_node_truthy: "add_node lbl shp st = (k, st1) \<Longrightarrow> truthy (Some k)"
  using add_node_fst [of lbl shp st] by (simp add: node_name_nonempty)


lemma add_node_start:
  "add_node ''Start'' (''(('', ''))'') empty_builder =
     (node_name 0, \<lparr>nodes = [(node_name 0, \<lparr>label = ''Start'', shape = (''(('', ''))'')\<rparr>)],
                   edges = [], node_counter = Suc 0\<rparr>)"
  by (simp add: add_node_def get_node_id_def empty_builder_def)

lemma store_ok_start:
  "store_ok \<lparr>nodes = [(node_name 0, \<lparr>label = ''Start'', shape = (''(('', ''))'')\<rparr>)],
             edges = [], node_counter = Suc 0\<rparr>"
  by (simp add: store_ok_def well_formed_def targets_known_def)

lemma visit_guarded_grows:
  "store_ok st \<Longrightarrow> known st ls \<Longrightarrow> known st le \<Longrightarrow>
     visit_guarded fs d xs p ls le st = Inr (r, st') \<Longrightarrow> grows st st'"
  by (rule guarded_grows [OF visit_grows])

lemma visit_program_grows:
  assumes "visit_program d tree = Inr (lst, st)"
  shows "store_ok st \<and> (\<exists>mid. nodes st =
           (node_name 0, \<lparr>label = ''Start'', shape = (''(('', ''))'')\<rparr>) # mid \<and> inner_ok mid)"
proof -
  let ?st1 = "\<lparr>nodes = [(node_name 0, \<lparr>label = ''Start'', shape = (''(('', ''))'')\<rparr>)],
             edges = [], node_counter = Suc 0\<rparr>"
  have "grows ?st1 st"
  proof (cases "filter (\<lambda>n. \<not> is_function_def n) tree = [] \<and> collect_functions tree \<noteq> []")
    case True
    obtain name entry where h: "hd (collect_functions tree) = (name, entry)" by fastforce
    obtain k st2 where a: "add_node (''def '' @ name @ ''(...)'') (''[['', '']]'') ?st1 = (k, st2)"
      by fastforce
    let ?st3 = "add_edge (Some (node_name 0), Some k, '''') st2"
    from assms True h a have v: "visit_guarded (collect_functions tree) d (body entry) (Some k)
        None None ?st3 = Inr (lst, st)"
      by (simp add: visit_program_def add_node_start)
    have g: "grows ?st1 ?st3" by (rule node_edge_grows [OF store_ok_start _ a]) simp
    have "grows ?st3 st"
      by (rule visit_guarded_grows [OF grows_store_ok [OF g] known_None known_None v])
    with g show ?thesis by (rule grows_trans)
  next
    case False
    with assms have v: "visit_guarded (collect_functions tree) d
        (filter (\<lambda>n. \<not> is_function_def n) tree) (Some (node_name 0)) None None ?st1 = Inr (lst, st)"
      by (auto simp: visit_program_def add_node_start)
    show ?thesis by (rule visit_guarded_grows [OF store_ok_start known_None known_None v])
  qed
  then show ?thesis by (auto simp: grows_def)
qed

lemma build_graph_result:
  assumes "build_graph d tree = Inr (ns, es)"
  shows "\<exists>lst st. visit_program d tree = Inr (lst, st) \<and>
     ns = nodes st @ [(node_name (node_counter st), \<lparr>label = ''End'', shape = (''(('', ''))'')\<rparr>)] \<and>
     es = edges st @ (if truthy lst then [(lst, Some (node_name (node_counter st)), '''')] else [])"
proof -
  from assms obtain lst st where v: "visit_program d tree = Inr (lst, st)"
    by (auto simp: build_graph_def split: sum.splits)
  from visit_program_grows [OF v] have "well_formed st" by (simp add: store_ok_def)
  from assms v show ?thesis
    by (auto simp: build_graph_def add_node_appends [OF \<open>well_formed st\<close>] add_edge_def)
qed

lemma well_formed_length: "well_formed st \<Longrightarrow> length (nodes st) = node_counter st"
  by (drule arg_cong [where f = length, OF well_formed_def [THEN iffD1]]) simp

lemma distinct_names: "distinct (map node_name [0..<n])"
  by (simp add: distinct_map inj_on_def node_name_inj)

subsection \<open>Every change of the store is an added node or an added edge\<close>

text \<open>
  A relation between stores that is reflexive and transitive and holds across every
  \<open>add_node\<close> and every \<open>add_edge\<close> holds between the store a visit starts from and the
  store it returns.
\<close>

lemma guarded_steps:
  assumes R_refl: "\<And>st. R st st"
    and R_trans: "\<And>a b c. R a b \<Longrightarrow> R b c \<Longrightarrow> R a c"
    and V: "\<And>n p st r st'. visit fs d n p ls le st = Inr (r, st') \<Longrightarrow> R st st'"
  shows "visit_guarded fs d xs p ls le st = Inr (r, st') \<Longrightarrow> R st st'"
proof (induction xs arbitrary: p st)
  case Nil
  then show ?case by (simp add: R_refl)
next
  case (Cons x xs)
  show ?case
  proof (cases "truthy p")
    case True
    with Cons.prems obtain r1 st1 where
      v: "visit fs d x p ls le st = Inr (r1, st1)" and
      g: "visit_guarded fs d xs r1 ls le st1 = Inr (r, st')"
      by (auto split: sum.splits)
    from V [OF v] Cons.IH [OF g] show ?thesis by (rule R_trans)
  next
    case False
    with Cons.prems have "visit_guarded fs d xs p ls le st = Inr (r, st')" by simp
    then show ?thesis by (rule Cons.IH)
  qed
qed

lemma inline_steps:
  assumes R_refl: "\<And>st. R st st"
    and R_trans: "\<And>a b c. R a b \<Longrightarrow> R b c \<Longrightarrow> R a c"
    and V: "\<And>n p st r st'. visit fs d n p ls le st = Inr (r, st') \<Longrightarrow> R st st'"
  shows "visit_inline fs d xs p ls le st = Inr (r, st') \<Longrightarrow> R st st'"
proof (induction xs arbitrary: p st)
  case Nil
  then show ?case by (simp add: R_refl)
next
  case (Cons x xs)
  from Cons.prems obtain r1 st1 where
    v: "visit fs d x p ls le st = Inr (r1, st1)" and
    g: "visit_inline fs d xs r1 ls le st1 = Inr (r, st')"
    by (auto split: sum.splits)
  from V [OF v] Cons.IH [OF g] show ?case by (rule R_trans)
qed

lemma visit_steps:
  assumes R_refl: "\<And>st. R st st"
    and R_trans: "\<And>a b c. R a b \<Longrightarrow> R b c \<Longrightarrow> R a c"
    and node: "\<And>lbl shp st. R st (snd (add_node lbl shp st))"
    and edge: "\<And>e st. R st (add_edge e st)"
  shows "visit fs d n p ls le st = Inr (r, st') \<Longrightarrow> R st st'"
proof (induction d arbitrary: n p ls le st r st')
  case 0
  then show ?case by simp
next
  case (Suc d)
  have G: "R st st'" if "visit_guarded fs d xs p ls le st = Inr (r, st')"
    for xs p ls le st r st'
    by (rule guarded_steps [where R = R, OF R_refl R_trans Suc.IH that])
  have I: "R st st'" if "visit_inline fs d xs p ls le st = Inr (r, st')"
    for xs p ls le st r st'
    by (rule inline_steps [where R = R, OF R_refl R_trans Suc.IH that])
  note e = Suc.prems
  have ne: "R s (add_edge e (snd (add_node l sh s)))" for s e l sh
    by (rule R_trans [OF node edge])
  have me: "R s (if b then add_edge e s else s)" for s e b
    by (simp add: R_refl edge)
  have pl: "add_node l sh s = (k, s1) \<Longrightarrow> R s (add_edge e s1)" for s e l sh k s1
    using ne [of s e l sh] by simp
  show ?case
  proof (cases n)
    case (Assign lbl)
    obtain k st1 where a: "add_node lbl (''[/'', ''/]'') st = (k, st1)" by fastforce
    with e Assign have "st' = add_edge (p, Some k, '''') st1" by auto
    with pl [OF a] show ?thesis by simp
  next
    case (AugAssign lbl)
    obtain k st1 where a: "add_node lbl (''[/'', ''/]'') st = (k, st1)" by fastforce
    with e AugAssign have "st' = add_edge (p, Some k, '''') st1" by auto
    with pl [OF a] show ?thesis by simp
  next
    case (Expr callee lbl)
    show ?thesis
    proof (cases "\<exists>f entry. callee = Some f \<and> f \<notin> set [''input'', ''print'']
                     \<and> map_of fs f = Some entry")
      case True
      then obtain f entry where c: "callee = Some f" "f \<notin> set [''input'', ''print'']"
           "map_of fs f = Some entry" by blast
      obtain k st1 where a: "add_node lbl (''['', '']'') st = (k, st1)" by fastforce
      from e Expr c a have "visit_inline fs d (body entry) (Some k) ls le
          (add_edge (p, Some k, '''') st1) = Inr (r, st')" by simp
      from pl [OF a] I [OF this] show ?thesis by (rule R_trans)
    next
      case False
      define shp where "shp = (if \<exists>f. callee = Some f \<and> f \<in> set [''input'', ''print'']
                               then (''[/'', ''/]'') else (''['', '']''))"
      obtain k st1 where a: "add_node lbl shp st = (k, st1)" by fastforce
      from e Expr False a have "st' = add_edge (p, Some k, '''') st1"
        by (auto simp: shp_def split: option.splits if_splits)
      with pl [OF a] show ?thesis by simp
    qed
  next
    case (Return lbl)
    obtain k st1 where a: "add_node lbl (''('', '')'') st = (k, st1)" by fastforce
    with e Return have "st' = add_edge (p, Some k, '''') st1" by auto
    with pl [OF a] show ?thesis by simp
  next
    case (If test tb eb)
    obtain c st1 where a1: "add_node (''if '' @ test) (''{'', ''}'') st = (c, st1)" by fastforce
    let ?st2 = "add_edge (p, Some c, '''') st1"
    have g2: "R st ?st2" using ne [of st "(p, Some c, '''')" "''if '' @ test" "(''{'', ''}'')"] a1
      by simp
    from e If a1 obtain te st3 where
      v1: "visit_guarded fs d tb (Some c) ls le ?st2 = Inr (te, st3)"
      by (auto simp: Let_def split: sum.splits)
    from e If a1 v1 obtain fe st4 where
      v2: "visit_guarded fs d eb (Some c) ls le st3 = Inr (fe, st4)"
      by (auto simp: Let_def split: sum.splits)
    have g4: "R st st4" by (rule R_trans [OF g2 R_trans [OF G [OF v1] G [OF v2]]])
    show ?thesis
    proof (cases "truthy te \<or> truthy fe")
      case False
      with e If a1 v1 v2 have "st' = st4" by (simp add: Let_def)
      with g4 show ?thesis by simp
    next
      case True
      obtain m st5 where a5: "add_node '' '' (''(('', ''))'') st4 = (m, st5)" by fastforce
      have g5: "R st4 st5" using node [of st4 "'' ''" "(''(('', ''))'')"] a5 by simp
      let ?st6 = "if truthy te then add_edge (te, Some m, ''Yes'') st5 else st5"
      let ?st7 = "if truthy fe then add_edge (fe, Some m, ''No'') ?st6 else ?st6"
      let ?st8 = "if tb = [] then add_edge (Some c, Some m, ''Yes'') ?st7 else ?st7"
      let ?st9 = "if eb = [] then add_edge (Some c, Some m, ''No'') ?st8 else ?st8"
      from e If a1 v1 v2 a5 True have f: "st' = ?st9"
        by (auto simp: Let_def split: if_splits)
      have "R st5 ?st9"
        by (rule R_trans [OF me [of st5] R_trans [OF me [of ?st6] R_trans [OF me [of ?st7] me [of ?st8]]]])
      with g4 g5 show ?thesis unfolding f by (blast intro: R_trans)
    qed
  next
    case (For target b eb)
    obtain h st1 where a1: "add_node (''For '' @ target) (''{{'', ''}}'') st = (h, st1)" by fastforce
    let ?st2 = "add_edge (p, Some h, '''') st1"
    obtain x st3 where a3: "add_node '' '' (''(('', ''))'') ?st2 = (x, st3)" by fastforce
    from e For a1 a3 obtain be st4 where
      v: "visit_guarded fs d b (Some h) (Some h) (Some x) st3 = Inr (be, st4)" and
      f: "st' = add_edge (Some h, Some x, ''End Loop'')
                (if truthy be then add_edge (be, Some h, ''Loop'') st4 else st4)"
      by (auto simp: Let_def split: sum.splits)
    have g2: "R st ?st2" using ne [of st "(p, Some h, '''')" "''For '' @ target" "(''{{'', ''}}'')"] a1
      by simp
    have g3: "R ?st2 st3" using node [of ?st2 "'' ''" "(''(('', ''))'')"] a3 by simp
    have "R st4 st'" unfolding f by (rule R_trans [OF me edge])
    with g2 g3 G [OF v] show ?thesis by (blast intro: R_trans)
  next
    case (While test b eb)
    obtain h st1 where a1: "add_node (''While '' @ test) (''{{'', ''}}'') st = (h, st1)" by fastforce
    let ?st2 = "add_edge (p, Some h, '''') st1"
    obtain x st3 where a3: "add_node '' '' (''(('', ''))'') ?st2 = (x, st3)" by fastforce
    from e While a1 a3 obtain be st4 where
      v: "visit_guarded fs d b (Some h) (Some h) (Some x) st3 = Inr (be, st4)" and
      f: "st' = add_edge (Some h, Some x, ''End Loop'')
                (if truthy be then add_edge (be, Some h, ''Loop'') st4 else st4)"
      by (auto simp: Let_def split: sum.splits)
    have g2: "R st ?st2" using ne [of st "(p, Some h, '''')" "''While '' @ test" "(''{{'', ''}}'')"] a1
      by simp
    have g3: "R ?st2 st3" using node [of ?st2 "'' ''" "(''(('', ''))'')"] a3 by simp
    have "R st4 st'" unfolding f by (rule R_trans [OF me edge])
    with g2 g3 G [OF v] show ?thesis by (blast intro: R_trans)
  next
    case Break
    with e show ?thesis by (auto intro: R_refl edge)
  next
    case Continue
    with e show ?thesis by (auto intro: R_refl edge)
  next
    case (FunctionDef name params fbody)
    with e show ?thesis by (auto intro: G)
  next
    case (Other children)
    with e show ?thesis by (auto intro: G)
  qed
qed





lemma well_formed_add_node:
  assumes "well_formed st"
  shows "well_formed (snd (add_node lbl shp st))"
  using assms by (simp add: add_node_appends well_formed_def)

lemma visit_keeps_nodes:
  "visit fs d n p ls le st = Inr (r, st') \<Longrightarrow>
     well_formed st \<longrightarrow>
       well_formed st' \<and> node_counter st \<le> node_counter st' \<and> (\<exists>new. nodes st' = nodes st @ new)"
proof (rule visit_steps [where R = "\<lambda>a b. well_formed a \<longrightarrow>
       well_formed b \<and> node_counter a \<le> node_counter b \<and> (\<exists>new. nodes b = nodes a @ new)"])
  fix lbl shp st
  show "well_formed st \<longrightarrow> well_formed (snd (add_node lbl shp st)) \<and>
       node_counter st \<le> node_counter (snd (add_node lbl shp st)) \<and>
       (\<exists>new. nodes (snd (add_node lbl shp st)) = nodes st @ new)"
  proof (intro impI conjI)
    assume w: "well_formed st"
    show "well_formed (snd (add_node lbl shp st))" by (rule well_formed_add_node [OF w])
    show "node_counter st \<le> node_counter (snd (add_node lbl shp st))"
      by (simp add: add_node_appends [OF w])
    show "\<exists>new. nodes (snd (add_node lbl shp st)) = nodes st @ new"
      by (simp add: add_node_appends [OF w])
  qed
next
  fix e st
  show "well_formed st \<longrightarrow> well_formed (add_edge e st) \<and>
       node_counter st \<le> node_counter (add_edge e st) \<and>
       (\<exists>new. nodes (add_edge e st) = nodes st @ new)"
    by (simp add: add_edge_def well_formed_def)
qed auto

subsection \<open>A break that is visited leaves its edge\<close>


subsection \<open>The handler of the flowchart generator\<close>

lemma handler_returns_fallback:
  "parse_code_to_ast ast_parse d code = Inl e \<Longrightarrow> py_print e = Inr u \<Longrightarrow>
   generate_mermaid_flowchart ast_parse py_print d code =
     Inr (''graph TD'' @ [CHR 0x0A] @ ''    A[Error: Could not parse code]'')"
  by (simp add: generate_mermaid_flowchart_def fallback_def)

lemma handler_print_raises:
  "parse_code_to_ast ast_parse d code = Inl e \<Longrightarrow> py_print e = Inl e' \<Longrightarrow>
   generate_mermaid_flowchart ast_parse py_print d code = Inl e'"
  by (simp add: generate_mermaid_flowchart_def)

lemma graph_is_rendered:
  "parse_code_to_ast ast_parse d code = Inr (ns, es) \<Longrightarrow>
   generate_mermaid_flowchart ast_parse py_print d code = Inr (serialize ns es)"
  by (simp add: generate_mermaid_flowchart_def)

subsection \<open>The guarded loop stops at the first statement that ends the path\<close>

lemma visit_guarded_falsy:
  "\<not> truthy p \<Longrightarrow> visit_guarded fs d xs p ls le st = Inr (p, st)"
  by (induction xs) simp_all

lemma visit_guarded_append:
  "visit_guarded fs d (xs @ ys) p ls le st =
     (case visit_guarded fs d xs p ls le st of
        Inl e \<Rightarrow> Inl e
      | Inr (r, st') \<Rightarrow> visit_guarded fs d ys r ls le st')"
  by (induction xs arbitrary: p st) (auto split: sum.splits)

lemma visit_guarded_cut:
  "visit_guarded fs d xs p ls le st = Inr (r, st') \<Longrightarrow> \<not> truthy r \<Longrightarrow>
     visit_guarded fs d (xs @ ys) p ls le st = Inr (r, st')"
  by (simp add: visit_guarded_append visit_guarded_falsy)

lemma visit_guarded_nonempty:
  "visit_guarded fs d xs p ls le st = Inr (r, st') \<Longrightarrow> truthy p \<Longrightarrow> \<not> truthy r \<Longrightarrow> xs \<noteq> []"
  by auto

lemma foldl_no_defs:
  "\<forall>n \<in> set zs. \<not> is_function_def n \<Longrightarrow>
     foldl (\<lambda>functions n. case n of
               FunctionDef name params fbody \<Rightarrow>
                 AList.update name \<lparr>body = fbody, args = params\<rparr> functions
             | _ \<Rightarrow> functions) acc zs = acc"
  by (induction zs arbitrary: acc) (auto split: node.splits)

lemma collect_functions_none:
  "\<forall>n \<in> set zs. \<not> is_function_def n \<Longrightarrow> collect_functions zs = []"
  unfolding collect_functions_def by (rule foldl_no_defs)

subsection \<open>A function that calls itself exhausts every recursion budget\<close>

lemma self_call_raises:
  "map_of fs f = Some entry \<Longrightarrow> f \<notin> set [''input'', ''print''] \<Longrightarrow>
   body entry = [Expr (Some f) lbl] \<Longrightarrow>
   visit fs d (Expr (Some f) lbl) p ls le st = Inl RecursionError"
proof (induction d arbitrary: p st)
  case 0
  show ?case by simp
next
  case (Suc d)
  obtain k st1 where a: "add_node lbl (''['', '']'') st = (k, st1)" by fastforce
  from Suc.IH [OF Suc.prems] have
    "visit fs d (Expr (Some f) lbl) (Some k) ls le (add_edge (p, Some k, '''') st1) = Inl RecursionError" .
  with Suc.prems a show ?case by simp
qed

lemma recursive_program_raises:
  "build_graph d [FunctionDef ''f'' [] [Expr (Some ''f'') ''f()''], Expr (Some ''f'') ''f()'']
     = Inl RecursionError"
proof -
  have "visit [(''f'', \<lparr>body = [Expr (Some ''f'') ''f()''], args = []\<rparr>)] d
          (Expr (Some ''f'') ''f()'') p ls le st = Inl RecursionError" for p ls le st
    by (rule self_call_raises [where entry = "\<lparr>body = [Expr (Some ''f'') ''f()''], args = []\<rparr>"])
       simp_all
  then show ?thesis
    by (simp add: build_graph_def visit_program_def collect_functions_def add_node_start
          node_name_nonempty)
qed

subsection \<open>A conditional without else\<close>

text \<open>
  With an empty \<^verbatim>\<open>orelse\<close>, \<^verbatim>\<open>false_end\<close> is still the decision node when the merge
  node is created, so \<^verbatim>\<open>if false_end\<close> adds the edge from the decision node labelled No,
  and \<^verbatim>\<open>if not node.orelse\<close> adds it again.
\<close>

lemma if_without_else_edges:
  assumes a1: "add_node (''if '' @ test) (''{'', ''}'') st = (c, st1)"
    and v: "visit_guarded fs d tb (Some c) ls le (add_edge (p, Some c, '''') st1) = Inr (te, st3)"
    and t: "truthy te" and nb: "tb \<noteq> []"
    and a5: "add_node '' '' (''(('', ''))'') st3 = (m, st5)"
  shows "visit fs (Suc d) (If test tb []) p ls le st =
     Inr (Some m, st5\<lparr>edges := edges st5 @
        [(te, Some m, ''Yes''), (Some c, Some m, ''No''), (Some c, Some m, ''No'')]\<rparr>)"
proof -
  from a1 have "c = node_name (node_counter st)" by (auto simp: add_node_def get_node_id_def)
  then have "truthy (Some c)" by (simp add: node_name_nonempty)
  with a1 v t nb a5 show ?thesis by (simp add: add_edge_def)
qed

section \<open>The claims\<close>

text \<open>
  Claim C1, as stated: the two branch assignments of \<^verbatim>\<open>if x > 0: y = 1 else: y = 2\<close>
  give process nodes. In the build of that program the nodes of \<^verbatim>\<open>y = 1\<close> and \<^verbatim>\<open>y = 2\<close>
  have the delimiters \<^verbatim>\<open>[/\<close> and \<^verbatim>\<open>/]\<close>, which are those of the node of a \<^verbatim>\<open>print\<close>
  call; the node of a plain expression statement, the process shape, has \<^verbatim>\<open>[\<close> and
  \<^verbatim>\<open>]\<close>.
\<close>

theorem C1_counterexample:
  "build_graph (Suc (Suc 0)) [If ''x > 0'' [Assign ''y = 1''] [Assign ''y = 2'']] =
   Inr ([(''N0'', \<lparr>label = ''Start'', shape = (''(('', ''))'')\<rparr>),
         (''N1'', \<lparr>label = ''if x > 0'', shape = (''{'', ''}'')\<rparr>),
         (''N2'', \<lparr>label = ''y = 1'', shape = (''[/'', ''/]'')\<rparr>),
         (''N3'', \<lparr>label = ''y = 2'', shape = (''[/'', ''/]'')\<rparr>),
         (''N4'', \<lparr>label = '' '', shape = (''(('', ''))'')\<rparr>),
         (''N5'', \<lparr>label = ''End'', shape = (''(('', ''))'')\<rparr>)],
        [(Some ''N0'', Some ''N1'', ''''),
         (Some ''N1'', Some ''N2'', ''''),
         (Some ''N1'', Some ''N3'', ''''),
         (Some ''N2'', Some ''N4'', ''Yes''),
         (Some ''N3'', Some ''N4'', ''No''),
         (Some ''N4'', Some ''N5'', '''')]) \<and>
   build_graph (Suc 0) [Expr None ''y''] =
   Inr ([(''N0'', \<lparr>label = ''Start'', shape = (''(('', ''))'')\<rparr>),
         (''N1'', \<lparr>label = ''y'', shape = (''['', '']'')\<rparr>),
         (''N2'', \<lparr>label = ''End'', shape = (''(('', ''))'')\<rparr>)],
        [(Some ''N0'', Some ''N1'', ''''), (Some ''N1'', Some ''N2'', '''')]) \<and>
   build_graph (Suc 0) [Expr (Some ''print'') ''print(y)''] =
   Inr ([(''N0'', \<lparr>label = ''Start'', shape = (''(('', ''))'')\<rparr>),
         (''N1'', \<lparr>label = ''print(y)'', shape = (''[/'', ''/]'')\<rparr>),
         (''N2'', \<lparr>label = ''End'', shape = (''(('', ''))'')\<rparr>)],
        [(Some ''N0'', Some ''N1'', ''''), (Some ''N1'', Some ''N2'', '''')]) \<and>
   (''[/'', ''/]'') \<noteq> (''['', '']'')"
  by (simp add: eval_defs)

text \<open>
  Claim C1, amended. For the program \<^verbatim>\<open>if x > 0: y = 1 else: y = 2\<close> the build gives
  exactly six nodes (Start, the decision node labelled with the condition, one node for
  each branch assignment with the delimiters \<^verbatim>\<open>[/\<close> and \<^verbatim>\<open>/]\<close>, one merge node, End) and
  exactly six edges: Start to the decision, the decision to each assignment, each
  assignment to the merge node with the labels Yes and No, and the merge node to End, the
  others unlabelled. It holds whenever two nested activations of \<^verbatim>\<open>visit\<close> are available.
\<close>

theorem C1_if_else_graph:
  "build_graph (Suc (Suc d)) [If ''x > 0'' [Assign ''y = 1''] [Assign ''y = 2'']] =
   Inr ([(''N0'', \<lparr>label = ''Start'', shape = (''(('', ''))'')\<rparr>),
         (''N1'', \<lparr>label = ''if x > 0'', shape = (''{'', ''}'')\<rparr>),
         (''N2'', \<lparr>label = ''y = 1'', shape = (''[/'', ''/]'')\<rparr>),
         (''N3'', \<lparr>label = ''y = 2'', shape = (''[/'', ''/]'')\<rparr>),
         (''N4'', \<lparr>label = '' '', shape = (''(('', ''))'')\<rparr>),
         (''N5'', \<lparr>label = ''End'', shape = (''(('', ''))'')\<rparr>)],
        [(Some ''N0'', Some ''N1'', ''''),
         (Some ''N1'', Some ''N2'', ''''),
         (Some ''N1'', Some ''N3'', ''''),
         (Some ''N2'', Some ''N4'', ''Yes''),
         (Some ''N3'', Some ''N4'', ''No''),
         (Some ''N4'', Some ''N5'', '''')])"
  by (simp add: build_defs str_nat.simps)

text \<open>
  Claim C2. For a conditional with a non-empty true branch that does not end the path and
  no else clause, the claim asks for exactly one edge from the decision node to the merge
  node labelled No. The code adds that edge twice: on \<^verbatim>\<open>if x > 0: y = 1\<close> the edge list
  holds \<open>N1 \<rightarrow> N3\<close> labelled No at two consecutive positions.
\<close>

theorem C2_if_without_else_duplicates_no_edge:
  "build_graph (Suc (Suc 0)) [If ''x > 0'' [Assign ''y = 1''] []] =
   Inr ([(''N0'', \<lparr>label = ''Start'', shape = (''(('', ''))'')\<rparr>),
         (''N1'', \<lparr>label = ''if x > 0'', shape = (''{'', ''}'')\<rparr>),
         (''N2'', \<lparr>label = ''y = 1'', shape = (''[/'', ''/]'')\<rparr>),
         (''N3'', \<lparr>label = '' '', shape = (''(('', ''))'')\<rparr>),
         (''N4'', \<lparr>label = ''End'', shape = (''(('', ''))'')\<rparr>)],
        [(Some ''N0'', Some ''N1'', ''''),
         (Some ''N1'', Some ''N2'', ''''),
         (Some ''N2'', Some ''N3'', ''Yes''),
         (Some ''N1'', Some ''N3'', ''No''),
         (Some ''N1'', Some ''N3'', ''No''),
         (Some ''N3'', Some ''N4'', '''')])"
  by (simp add: eval_defs)

text \<open>
  Claim C3. When the true branch and the false branch of a conditional both end the path,
  the visit of the conditional returns \<^verbatim>\<open>None\<close> and its store is the store left by the
  false branch: no merge node and no edge is added after the branches. When the visit of
  the program ends with \<^verbatim>\<open>None\<close>, the build adds the End node and no edge, and no edge
  of the result points to the End node.
\<close>

theorem C3_both_branches_terminate:
  "(add_node (''if '' @ test) (''{'', ''}'') st = (c, st1) \<and>
    visit_guarded fs d tb (Some c) ls le (add_edge (p, Some c, '''') st1) = Inr (te, st3) \<and>
    visit_guarded fs d eb (Some c) ls le st3 = Inr (fe, st4) \<and>
    \<not> truthy te \<and> \<not> truthy fe
    \<longrightarrow> visit fs (Suc d) (If test tb eb) p ls le st = Inr (None, st4)) \<and>
   (visit_program d' tree = Inr (lst, st') \<and> \<not> truthy lst
    \<longrightarrow> build_graph d' tree =
          Inr (nodes st' @ [(node_name (node_counter st'),
                             \<lparr>label = ''End'', shape = (''(('', ''))'')\<rparr>)], edges st') \<and>
        (\<forall>e \<in> set (edges st'). fst (snd e) \<noteq> Some (node_name (node_counter st'))))"
proof (intro conjI impI)
  assume "add_node (''if '' @ test) (''{'', ''}'') st = (c, st1) \<and>
    visit_guarded fs d tb (Some c) ls le (add_edge (p, Some c, '''') st1) = Inr (te, st3) \<and>
    visit_guarded fs d eb (Some c) ls le st3 = Inr (fe, st4) \<and>
    \<not> truthy te \<and> \<not> truthy fe"
  then show "visit fs (Suc d) (If test tb eb) p ls le st = Inr (None, st4)" by simp
next
  assume a: "visit_program d' tree = Inr (lst, st') \<and> \<not> truthy lst"
  from visit_program_grows [of d' tree lst st'] a
  have w: "well_formed st'" and t: "targets_known st'" by (simp_all add: store_ok_def)
  from a show "build_graph d' tree =
          Inr (nodes st' @ [(node_name (node_counter st'),
                             \<lparr>label = ''End'', shape = (''(('', ''))'')\<rparr>)], edges st')"
    by (simp add: build_graph_def add_node_appends [OF w])
  show "\<forall>e \<in> set (edges st'). fst (snd e) \<noteq> Some (node_name (node_counter st'))"
  proof
    fix e assume "e \<in> set (edges st')"
    with t have "has_node st' (fst (snd e))" by (simp add: targets_known_def)
    with fresh_name [OF w] show "fst (snd e) \<noteq> Some (node_name (node_counter st'))"
      by (force simp: has_node_def)
  qed
qed

text \<open>
  Both branches return: the conditional yields \<^verbatim>\<open>None\<close> and three nodes, the program five
  nodes, none of them a merge node, and no edge into \<open>N4\<close>, the End node.
\<close>

theorem C3_witness:
  "visit [] (Suc (Suc 0)) (If ''x > 0'' [Return ''return 1''] [Return ''return 2''])
      None None None empty_builder =
     Inr (None,
          \<lparr>nodes = [(''N0'', \<lparr>label = ''if x > 0'', shape = (''{'', ''}'')\<rparr>),
                    (''N1'', \<lparr>label = ''return 1'', shape = (''('', '')'')\<rparr>),
                    (''N2'', \<lparr>label = ''return 2'', shape = (''('', '')'')\<rparr>)],
           edges = [(None, Some ''N0'', ''''), (Some ''N0'', Some ''N1'', ''''),
                    (Some ''N0'', Some ''N2'', '''')],
           node_counter = 3\<rparr>) \<and>
   build_graph (Suc (Suc 0)) [If ''x > 0'' [Return ''return 1''] [Return ''return 2'']] =
     Inr ([(''N0'', \<lparr>label = ''Start'', shape = (''(('', ''))'')\<rparr>),
           (''N1'', \<lparr>label = ''if x > 0'', shape = (''{'', ''}'')\<rparr>),
           (''N2'', \<lparr>label = ''return 1'', shape = (''('', '')'')\<rparr>),
           (''N3'', \<lparr>label = ''return 2'', shape = (''('', '')'')\<rparr>),
           (''N4'', \<lparr>label = ''End'', shape = (''(('', ''))'')\<rparr>)],
          [(Some ''N0'', Some ''N1'', ''''), (Some ''N1'', Some ''N2'', ''''),
           (Some ''N1'', Some ''N3'', '''')]) \<and>
   Some ''N4'' \<notin> (\<lambda>e. fst (snd e)) ` set [(Some ''N0'', Some ''N1'', ''''),
                (Some ''N1'', Some ''N2'', ''''), (Some ''N1'', Some ''N3'', '''')]"
proof -
  let ?A1 = "\<lparr>nodes = [(''N0'', \<lparr>label = ''if x > 0'', shape = (''{'', ''}'')\<rparr>)],
              edges = [], node_counter = 1\<rparr>"
  let ?A3 = "\<lparr>nodes = [(''N0'', \<lparr>label = ''if x > 0'', shape = (''{'', ''}'')\<rparr>),
                       (''N1'', \<lparr>label = ''return 1'', shape = (''('', '')'')\<rparr>)],
              edges = [(None, Some ''N0'', ''''), (Some ''N0'', Some ''N1'', '''')],
              node_counter = 2\<rparr>"
  let ?A4 = "\<lparr>nodes = [(''N0'', \<lparr>label = ''if x > 0'', shape = (''{'', ''}'')\<rparr>),
                    (''N1'', \<lparr>label = ''return 1'', shape = (''('', '')'')\<rparr>),
                    (''N2'', \<lparr>label = ''return 2'', shape = (''('', '')'')\<rparr>)],
           edges = [(None, Some ''N0'', ''''), (Some ''N0'', Some ''N1'', ''''),
                    (Some ''N0'', Some ''N2'', '''')],
           node_counter = 3\<rparr>"
  let ?B4 = "\<lparr>nodes = [(''N0'', \<lparr>label = ''Start'', shape = (''(('', ''))'')\<rparr>),
           (''N1'', \<lparr>label = ''if x > 0'', shape = (''{'', ''}'')\<rparr>),
           (''N2'', \<lparr>label = ''return 1'', shape = (''('', '')'')\<rparr>),
           (''N3'', \<lparr>label = ''return 2'', shape = (''('', '')'')\<rparr>)],
          edges = [(Some ''N0'', Some ''N1'', ''''), (Some ''N1'', Some ''N2'', ''''),
           (Some ''N1'', Some ''N3'', '''')], node_counter = 4\<rparr>"
  have a: "add_node (''if '' @ ''x > 0'') (''{'', ''}'') empty_builder = (''N0'', ?A1)"
    by (simp add: eval_defs)
  have v1: "visit_guarded [] (Suc 0) [Return ''return 1''] (Some ''N0'') None None
              (add_edge (None, Some ''N0'', '''') ?A1) = Inr (None, ?A3)"
    by (simp add: eval_defs)
  have v2: "visit_guarded [] (Suc 0) [Return ''return 2''] (Some ''N0'') None None ?A3
              = Inr (None, ?A4)"
    by (simp add: eval_defs)
  have p: "visit_program (Suc (Suc 0)) [If ''x > 0'' [Return ''return 1''] [Return ''return 2'']]
              = Inr (None, ?B4)"
    by (simp add: eval_defs)
  have n: "\<not> truthy None" by simp
  have k: "node_name 4 = ''N4''" by (simp add: eval_defs)
  note T = C3_both_branches_terminate [where test = "''x > 0''" and st = empty_builder
      and c = "''N0''" and ?st1.0 = ?A1 and fs = "[]" and d = "Suc 0"
      and tb = "[Return ''return 1'']" and eb = "[Return ''return 2'']" and ls = None
      and le = None and p = None and te = None and ?st3.0 = ?A3 and fe = None
      and ?st4.0 = ?A4 and d' = "Suc (Suc 0)"
      and tree = "[If ''x > 0'' [Return ''return 1''] [Return ''return 2'']]"
      and lst = None and st' = ?B4]
  from T [THEN conjunct1, THEN mp, OF conjI [OF a conjI [OF v1 conjI [OF v2 conjI [OF n n]]]]]
       T [THEN conjunct2, THEN mp, OF conjI [OF p n]] k
  show ?thesis by simp
qed



text \<open>
  Claim C5, as stated: after a \<^verbatim>\<open>break\<close> or \<^verbatim>\<open>continue\<close> outside any loop the statements
  that follow it in the same sequence are still visited. On the program
  \<^verbatim>\<open>break; x = 1\<close> the build has the nodes Start and End only and no edge, while
  \<^verbatim>\<open>x = 1\<close> alone gives a node for the assignment.
\<close>

theorem C5_counterexample:
  "build_graph (Suc 0) [Break, Assign ''x = 1''] =
     Inr ([(''N0'', \<lparr>label = ''Start'', shape = (''(('', ''))'')\<rparr>),
           (''N1'', \<lparr>label = ''End'', shape = (''(('', ''))'')\<rparr>)], []) \<and>
   build_graph (Suc 0) [Assign ''x = 1''] =
     Inr ([(''N0'', \<lparr>label = ''Start'', shape = (''(('', ''))'')\<rparr>),
           (''N1'', \<lparr>label = ''x = 1'', shape = (''[/'', ''/]'')\<rparr>),
           (''N2'', \<lparr>label = ''End'', shape = (''(('', ''))'')\<rparr>)],
          [(Some ''N0'', Some ''N1'', ''''), (Some ''N1'', Some ''N2'', '''')])"
  by (simp add: eval_defs)

text \<open>
  Claim C5, amended. A \<^verbatim>\<open>break\<close> (a \<^verbatim>\<open>continue\<close>) visited with no loop exit (no loop
  header) adds no node and no edge and returns \<^verbatim>\<open>None\<close>; in a guarded sequence the
  statements after it are skipped, so the sequence returns \<^verbatim>\<open>None\<close> with the store
  unchanged.
\<close>

theorem C5_orphan_break_ends_the_path:
  "(\<not> truthy le \<longrightarrow> visit fs (Suc d) Break p ls le st = Inr (None, st)) \<and>
   (\<not> truthy ls \<longrightarrow> visit fs (Suc d) Continue p ls le st = Inr (None, st)) \<and>
   (truthy p \<and> \<not> truthy le \<longrightarrow>
      visit_guarded fs (Suc d) (Break # rest) p ls le st = Inr (None, st)) \<and>
   (truthy p \<and> \<not> truthy ls \<longrightarrow>
      visit_guarded fs (Suc d) (Continue # rest) p ls le st = Inr (None, st))"
  by (simp add: visit_guarded_falsy)

text \<open>An orphan \<^verbatim>\<open>break\<close> or \<^verbatim>\<open>continue\<close> followed by an assignment, on the empty store.\<close>

theorem C5_witness:
  "visit [] (Suc 0) Break (Some ''N0'') None None empty_builder = Inr (None, empty_builder) \<and>
   visit [] (Suc 0) Continue (Some ''N0'') None None empty_builder = Inr (None, empty_builder) \<and>
   visit_guarded [] (Suc 0) [Break, Assign ''x = 1''] (Some ''N0'') None None empty_builder =
     Inr (None, empty_builder) \<and>
   visit_guarded [] (Suc 0) [Continue, Assign ''x = 1''] (Some ''N0'') None None empty_builder =
     Inr (None, empty_builder)"
proof -
  have n: "\<not> truthy None" and t: "truthy (Some ''N0'')" by simp_all
  note T = C5_orphan_break_ends_the_path [where le = None and ls = None and fs = "[]" and d = 0
      and p = "Some ''N0''" and st = empty_builder and rest = "[Assign ''x = 1'']"]
  from T [THEN conjunct1, THEN mp, OF n]
       T [THEN conjunct2, THEN conjunct1, THEN mp, OF n]
       T [THEN conjunct2, THEN conjunct2, THEN conjunct1, THEN mp, OF conjI [OF t n]]
       T [THEN conjunct2, THEN conjunct2, THEN conjunct2, THEN mp, OF conjI [OF t n]]
  show ?thesis by simp
qed

text \<open>
  Claim C6 asks that no exception reaches the caller of the flowchart generator. The
  handler prints the exception it caught before it returns the fallback document, and that
  \<^verbatim>\<open>print\<close> is outside any \<^verbatim>\<open>try\<close>. On an input that the parser rejects and whose
  source line holds a letter outside ASCII (here \<^verbatim>\<open>x = \<close>, the two bytes of the UTF-8
  form of e with an acute accent, and \<^verbatim>\<open> +\<close>), with a standard output that cannot encode
  the quoted source line, the
  \<^verbatim>\<open>UnicodeEncodeError\<close> of the \<^verbatim>\<open>print\<close> is the outcome of the call; with a standard
  output that takes the message, the outcome is the fallback document, the header line
  followed by the single node \<^verbatim>\<open>A[Error: Could not parse code]\<close> and no edge line.
\<close>

theorem C6_exception_in_handler_propagates:
  "generate_mermaid_flowchart (\<lambda>c. Inl SyntaxError) (\<lambda>e. Inl UnicodeEncodeError) 0
      (''x = '' @ [CHR 0xC3, CHR 0xA9] @ '' +'') = Inl UnicodeEncodeError \<and>
   generate_mermaid_flowchart (\<lambda>c. Inl SyntaxError) (\<lambda>e. Inr ()) 0
      (''x = '' @ [CHR 0xC3, CHR 0xA9] @ '' +'') =
      Inr (''graph TD'' @ [CHR 0x0A] @ ''    A[Error: Could not parse code]'')"
proof -
  have p: "parse_code_to_ast (\<lambda>c. Inl SyntaxError) d code = Inl SyntaxError" for d code
    by (simp add: parse_code_to_ast_def)
  have 1: "generate_mermaid_flowchart (\<lambda>c. Inl SyntaxError) (\<lambda>e. Inl UnicodeEncodeError) 0
      (''x = '' @ [CHR 0xC3, CHR 0xA9] @ '' +'') = Inl UnicodeEncodeError"
    by (rule handler_print_raises [OF p]) simp
  have 2: "generate_mermaid_flowchart (\<lambda>c. Inl SyntaxError) (\<lambda>e. Inr ()) 0
      (''x = '' @ [CHR 0xC3, CHR 0xA9] @ '' +'') =
      Inr (''graph TD'' @ [CHR 0x0A] @ ''    A[Error: Could not parse code]'')"
    by (rule handler_returns_fallback [OF p]) simp
  from 1 2 show ?thesis by blast
qed

text \<open>
  Claim C7, as stated: the node of an assignment has the shape of a plain expression
  statement. In the build of \<^verbatim>\<open>x = 1; x\<close> the assignment node has the delimiters
  \<^verbatim>\<open>[/\<close> and \<^verbatim>\<open>/]\<close>, the node of the plain expression \<^verbatim>\<open>[\<close> and \<^verbatim>\<open>]\<close>.
\<close>

theorem C7_counterexample:
  "build_graph (Suc 0) [Assign ''x = 1'', Expr None ''x''] =
     Inr ([(''N0'', \<lparr>label = ''Start'', shape = (''(('', ''))'')\<rparr>),
           (''N1'', \<lparr>label = ''x = 1'', shape = (''[/'', ''/]'')\<rparr>),
           (''N2'', \<lparr>label = ''x'', shape = (''['', '']'')\<rparr>),
           (''N3'', \<lparr>label = ''End'', shape = (''(('', ''))'')\<rparr>)],
          [(Some ''N0'', Some ''N1'', ''''), (Some ''N1'', Some ''N2'', ''''),
           (Some ''N2'', Some ''N3'', '''')]) \<and>
   (''[/'', ''/]'') \<noteq> (''['', '']'')"
  by (simp add: eval_defs)

text \<open>
  Claim C7, amended. On a well-formed store, an assignment or augmented assignment adds
  exactly one node, with the next id, labelled with the statement's text, whose shape is
  the pair \<^verbatim>\<open>[/\<close>, \<^verbatim>\<open>/]\<close>; it adds one unlabelled edge from the predecessor to that node
  and returns the node. That is what a call of \<^verbatim>\<open>print\<close> or \<^verbatim>\<open>input\<close> with the same text
  does; a plain expression statement differs in the shape only, which is \<^verbatim>\<open>[\<close>, \<^verbatim>\<open>]\<close>.
\<close>

theorem C7_assignment_node:
  "well_formed st \<and> (n = Assign lbl \<or> n = AugAssign lbl) \<longrightarrow>
     visit fs (Suc d) n p ls le st =
       Inr (Some (node_name (node_counter st)),
            st\<lparr>node_counter := Suc (node_counter st),
               nodes := nodes st @ [(node_name (node_counter st),
                                     \<lparr>label = lbl, shape = (''[/'', ''/]'')\<rparr>)],
               edges := edges st @ [(p, Some (node_name (node_counter st)), '''')]\<rparr>) \<and>
     visit fs (Suc d) (Expr (Some ''print'') lbl) p ls le st = visit fs (Suc d) n p ls le st \<and>
     visit fs (Suc d) (Expr (Some ''input'') lbl) p ls le st = visit fs (Suc d) n p ls le st \<and>
     visit fs (Suc d) (Expr None lbl) p ls le st =
       Inr (Some (node_name (node_counter st)),
            st\<lparr>node_counter := Suc (node_counter st),
               nodes := nodes st @ [(node_name (node_counter st),
                                     \<lparr>label = lbl, shape = (''['', '']'')\<rparr>)],
               edges := edges st @ [(p, Some (node_name (node_counter st)), '''')]\<rparr>)"
  by (auto simp: add_node_appends add_edge_def)

text \<open>The assignment \<^verbatim>\<open>x = 1\<close> on the empty store.\<close>

theorem C7_witness:
  "well_formed empty_builder \<and>
   visit [] (Suc 0) (Assign ''x = 1'') None None None empty_builder =
     Inr (Some ''N0'',
          \<lparr>nodes = [(''N0'', \<lparr>label = ''x = 1'', shape = (''[/'', ''/]'')\<rparr>)],
           edges = [(None, Some ''N0'', '''')], node_counter = 1\<rparr>) \<and>
   visit [] (Suc 0) (Expr (Some ''print'') ''x = 1'') None None None empty_builder =
     visit [] (Suc 0) (Assign ''x = 1'') None None None empty_builder \<and>
   visit [] (Suc 0) (Expr None ''x = 1'') None None None empty_builder =
     Inr (Some ''N0'',
          \<lparr>nodes = [(''N0'', \<lparr>label = ''x = 1'', shape = (''['', '']'')\<rparr>)],
           edges = [(None, Some ''N0'', '''')], node_counter = 1\<rparr>)"
proof -
  have w: "well_formed empty_builder" by (simp add: well_formed_def empty_builder_def)
  have k: "node_name 0 = ''N0''" by (simp add: eval_defs)
  from C7_assignment_node [where st = empty_builder and n = "Assign ''x = 1''"
      and lbl = "''x = 1''" and fs = "[]" and d = 0 and p = None and ls = None and le = None,
      THEN mp, OF conjI [OF w disjI1 [OF refl]]] w k
  show ?thesis by (simp add: empty_builder_def)
qed

text \<open>
  Claim C8. The empty store is well formed. On a well-formed store, \<open>add_node\<close> returns
  the id N followed by the decimal form of the counter, that id is not the id of any node
  of the store (the ids in use are exactly those of the smaller counter values), the new
  node is appended and nothing is overwritten, the counter grows by one and the store is
  well formed again; the numbering is injective, so two counter values never give the same
  id. A visit that starts from a well-formed store returns a well-formed store whose nodes
  are those it started from, in the same order, followed by new ones. In every successful
  build the i-th node of the result has the id N followed by the decimal form of i, so
  ids are pairwise distinct and increase in the order of creation; the first node is the
  Start sentinel, the last one the End sentinel, and no node between them is a Start or
  End sentinel.
\<close>

theorem C8_ids_and_sentinels:
  "well_formed empty_builder \<and>
   (well_formed st \<longrightarrow>
      add_node lbl shp st =
        (node_name (node_counter st),
         st\<lparr>node_counter := Suc (node_counter st),
            nodes := nodes st @ [(node_name (node_counter st), \<lparr>label = lbl, shape = shp\<rparr>)]\<rparr>) \<and>
      node_name (node_counter st) \<notin> fst ` set (nodes st) \<and>
      fst ` set (nodes st) = node_name ` {0..<node_counter st} \<and>
      well_formed (snd (add_node lbl shp st))) \<and>
   inj node_name \<and>
   (well_formed st \<and> visit fs d' n p ls le st = Inr (r, st') \<longrightarrow>
      well_formed st' \<and> node_counter st \<le> node_counter st' \<and>
      (\<exists>new. nodes st' = nodes st @ new)) \<and>
   (build_graph d tree = Inr (ns, es) \<longrightarrow>
      (\<exists>mid. ns = (node_name 0, \<lparr>label = ''Start'', shape = (''(('', ''))'')\<rparr>) # mid @
                   [(node_name (Suc (length mid)), \<lparr>label = ''End'', shape = (''(('', ''))'')\<rparr>)]
           \<and> (\<forall>nd \<in> snd ` set mid. nd \<noteq> \<lparr>label = ''Start'', shape = (''(('', ''))'')\<rparr>
                                  \<and> nd \<noteq> \<lparr>label = ''End'', shape = (''(('', ''))'')\<rparr>)
           \<and> map fst ns = map node_name [0..<length ns]
           \<and> distinct (map fst ns)))"
proof (intro conjI impI)
  show "well_formed empty_builder" by (simp add: well_formed_def empty_builder_def)
next
  assume w: "well_formed st"
  show "add_node lbl shp st =
        (node_name (node_counter st),
         st\<lparr>node_counter := Suc (node_counter st),
            nodes := nodes st @ [(node_name (node_counter st), \<lparr>label = lbl, shape = shp\<rparr>)]\<rparr>)"
    by (rule add_node_appends [OF w])
  show "node_name (node_counter st) \<notin> fst ` set (nodes st)" by (rule fresh_name [OF w])
  from w have "set (map fst (nodes st)) = set (map node_name [0..<node_counter st])"
    by (simp only: well_formed_def)
  then show "fst ` set (nodes st) = node_name ` {0..<node_counter st}" by simp
  show "well_formed (snd (add_node lbl shp st))" by (rule well_formed_add_node [OF w])
next
  show "inj node_name" by (rule injI) (rule node_name_inj)
next
  assume a: "well_formed st \<and> visit fs d' n p ls le st = Inr (r, st')"
  from a visit_keeps_nodes [of fs d' n p ls le st r st']
  have k: "well_formed st' \<and> node_counter st \<le> node_counter st' \<and>
      (\<exists>new. nodes st' = nodes st @ new)" by blast
  from k show "well_formed st'" by blast
  from k show "node_counter st \<le> node_counter st'" by blast
  from k show "\<exists>new. nodes st' = nodes st @ new" by blast
next
  assume b: "build_graph d tree = Inr (ns, es)"
  from build_graph_result [OF b] obtain lst st where
    v: "visit_program d tree = Inr (lst, st)" and
    ns: "ns = nodes st @ [(node_name (node_counter st), \<lparr>label = ''End'', shape = (''(('', ''))'')\<rparr>)]"
    by blast
  from visit_program_grows [OF v] obtain mid where
    w: "well_formed st" and
    m: "nodes st = (node_name 0, \<lparr>label = ''Start'', shape = (''(('', ''))'')\<rparr>) # mid" and
    i: "inner_ok mid"
    by (auto simp: store_ok_def)
  from well_formed_length [OF w] m have c: "node_counter st = Suc (length mid)" by simp
  have k: "map fst ns = map node_name [0..<length ns]"
    using w by (simp add: ns well_formed_def well_formed_length [OF w])
  have "distinct (map fst ns)" unfolding k by (rule distinct_names)
  moreover have "\<forall>nd \<in> snd ` set mid. nd \<noteq> \<lparr>label = ''Start'', shape = (''(('', ''))'')\<rparr>
                                  \<and> nd \<noteq> \<lparr>label = ''End'', shape = (''(('', ''))'')\<rparr>"
    using i by (auto simp: inner_ok_def)
  ultimately show "\<exists>mid. ns = (node_name 0, \<lparr>label = ''Start'', shape = (''(('', ''))'')\<rparr>) # mid @
                   [(node_name (Suc (length mid)), \<lparr>label = ''End'', shape = (''(('', ''))'')\<rparr>)]
           \<and> (\<forall>nd \<in> snd ` set mid. nd \<noteq> \<lparr>label = ''Start'', shape = (''(('', ''))'')\<rparr>
                                  \<and> nd \<noteq> \<lparr>label = ''End'', shape = (''(('', ''))'')\<rparr>)
           \<and> map fst ns = map node_name [0..<length ns]
           \<and> distinct (map fst ns)"
    using k by (intro exI [where x = mid]) (simp add: ns m c)
qed

text \<open>
  An assignment node added after Start; a conditional visited after Start; and the program
  \<^verbatim>\<open>x = 1\<close>.
\<close>

theorem C8_witness:
  "well_formed \<lparr>nodes = [(''N0'', \<lparr>label = ''Start'', shape = (''(('', ''))'')\<rparr>)],
                edges = [], node_counter = 1\<rparr> \<and>
   add_node ''x = 1'' (''[/'', ''/]'')
      \<lparr>nodes = [(''N0'', \<lparr>label = ''Start'', shape = (''(('', ''))'')\<rparr>)],
       edges = [], node_counter = 1\<rparr> =
     (''N1'', \<lparr>nodes = [(''N0'', \<lparr>label = ''Start'', shape = (''(('', ''))'')\<rparr>),
                       (''N1'', \<lparr>label = ''x = 1'', shape = (''[/'', ''/]'')\<rparr>)],
              edges = [], node_counter = 2\<rparr>) \<and>
   ''N1'' \<notin> fst ` set [(''N0'', \<lparr>label = ''Start'', shape = (''(('', ''))'')\<rparr>)] \<and>
   well_formed \<lparr>nodes = [(''N0'', \<lparr>label = ''Start'', shape = (''(('', ''))'')\<rparr>),
                       (''N1'', \<lparr>label = ''x = 1'', shape = (''[/'', ''/]'')\<rparr>)],
                edges = [], node_counter = 2\<rparr> \<and>
   inj node_name \<and>
   visit [] (Suc (Suc 0)) (If ''c'' [Assign ''x = 1''] []) (Some ''N0'') None None
      \<lparr>nodes = [(''N0'', \<lparr>label = ''Start'', shape = (''(('', ''))'')\<rparr>)],
       edges = [], node_counter = 1\<rparr> =
     Inr (Some ''N3'',
      \<lparr>nodes = [(''N0'', \<lparr>label = ''Start'', shape = (''(('', ''))'')\<rparr>),
                (''N1'', \<lparr>label = ''if c'', shape = (''{'', ''}'')\<rparr>),
                (''N2'', \<lparr>label = ''x = 1'', shape = (''[/'', ''/]'')\<rparr>),
                (''N3'', \<lparr>label = '' '', shape = (''(('', ''))'')\<rparr>)],
       edges = [(Some ''N0'', Some ''N1'', ''''), (Some ''N1'', Some ''N2'', ''''),
                (Some ''N2'', Some ''N3'', ''Yes''), (Some ''N1'', Some ''N3'', ''No''),
                (Some ''N1'', Some ''N3'', ''No'')],
       node_counter = 4\<rparr>) \<and>
   well_formed
      \<lparr>nodes = [(''N0'', \<lparr>label = ''Start'', shape = (''(('', ''))'')\<rparr>),
                (''N1'', \<lparr>label = ''if c'', shape = (''{'', ''}'')\<rparr>),
                (''N2'', \<lparr>label = ''x = 1'', shape = (''[/'', ''/]'')\<rparr>),
                (''N3'', \<lparr>label = '' '', shape = (''(('', ''))'')\<rparr>)],
       edges = [(Some ''N0'', Some ''N1'', ''''), (Some ''N1'', Some ''N2'', ''''),
                (Some ''N2'', Some ''N3'', ''Yes''), (Some ''N1'', Some ''N3'', ''No''),
                (Some ''N1'', Some ''N3'', ''No'')],
       node_counter = 4\<rparr> \<and>
   (\<exists>new. [(''N0'', \<lparr>label = ''Start'', shape = (''(('', ''))'')\<rparr>),
           (''N1'', \<lparr>label = ''if c'', shape = (''{'', ''}'')\<rparr>),
           (''N2'', \<lparr>label = ''x = 1'', shape = (''[/'', ''/]'')\<rparr>),
           (''N3'', \<lparr>label = '' '', shape = (''(('', ''))'')\<rparr>)] =
          [(''N0'', \<lparr>label = ''Start'', shape = (''(('', ''))'')\<rparr>)] @ new) \<and>
   build_graph (Suc 0) [Assign ''x = 1''] =
     Inr ([(''N0'', \<lparr>label = ''Start'', shape = (''(('', ''))'')\<rparr>),
           (''N1'', \<lparr>label = ''x = 1'', shape = (''[/'', ''/]'')\<rparr>),
           (''N2'', \<lparr>label = ''End'', shape = (''(('', ''))'')\<rparr>)],
          [(Some ''N0'', Some ''N1'', ''''), (Some ''N1'', Some ''N2'', '''')]) \<and>
   (\<exists>mid. [(''N0'', \<lparr>label = ''Start'', shape = (''(('', ''))'')\<rparr>),
           (''N1'', \<lparr>label = ''x = 1'', shape = (''[/'', ''/]'')\<rparr>),
           (''N2'', \<lparr>label = ''End'', shape = (''(('', ''))'')\<rparr>)] =
          (node_name 0, \<lparr>label = ''Start'', shape = (''(('', ''))'')\<rparr>) # mid @
            [(node_name (Suc (length mid)), \<lparr>label = ''End'', shape = (''(('', ''))'')\<rparr>)]
        \<and> \<lparr>label = ''Start'', shape = (''(('', ''))'')\<rparr> \<notin> snd ` set mid
        \<and> \<lparr>label = ''End'', shape = (''(('', ''))'')\<rparr> \<notin> snd ` set mid) \<and>
   map fst [(''N0'', \<lparr>label = ''Start'', shape = (''(('', ''))'')\<rparr>),
           (''N1'', \<lparr>label = ''x = 1'', shape = (''[/'', ''/]'')\<rparr>),
           (''N2'', \<lparr>label = ''End'', shape = (''(('', ''))'')\<rparr>)] =
     map node_name [0..<length [(''N0'', \<lparr>label = ''Start'', shape = (''(('', ''))'')\<rparr>),
           (''N1'', \<lparr>label = ''x = 1'', shape = (''[/'', ''/]'')\<rparr>),
           (''N2'', \<lparr>label = ''End'', shape = (''(('', ''))'')\<rparr>)]] \<and>
   distinct (map fst [(''N0'', \<lparr>label = ''Start'', shape = (''(('', ''))'')\<rparr>),
           (''N1'', \<lparr>label = ''x = 1'', shape = (''[/'', ''/]'')\<rparr>),
           (''N2'', \<lparr>label = ''End'', shape = (''(('', ''))'')\<rparr>)])"
proof -
  let ?S0 = "\<lparr>nodes = [(''N0'', \<lparr>label = ''Start'', shape = (''(('', ''))'')\<rparr>)],
                edges = [], node_counter = 1\<rparr>"
  let ?S1 = "\<lparr>nodes = [(''N0'', \<lparr>label = ''Start'', shape = (''(('', ''))'')\<rparr>),
                       (''N1'', \<lparr>label = ''x = 1'', shape = (''[/'', ''/]'')\<rparr>)],
              edges = [], node_counter = 2\<rparr>"
  let ?V = "\<lparr>nodes = [(''N0'', \<lparr>label = ''Start'', shape = (''(('', ''))'')\<rparr>),
                (''N1'', \<lparr>label = ''if c'', shape = (''{'', ''}'')\<rparr>),
                (''N2'', \<lparr>label = ''x = 1'', shape = (''[/'', ''/]'')\<rparr>),
                (''N3'', \<lparr>label = '' '', shape = (''(('', ''))'')\<rparr>)],
       edges = [(Some ''N0'', Some ''N1'', ''''), (Some ''N1'', Some ''N2'', ''''),
                (Some ''N2'', Some ''N3'', ''Yes''), (Some ''N1'', Some ''N3'', ''No''),
                (Some ''N1'', Some ''N3'', ''No'')],
       node_counter = 4\<rparr>"
  let ?ns = "[(''N0'', \<lparr>label = ''Start'', shape = (''(('', ''))'')\<rparr>),
           (''N1'', \<lparr>label = ''x = 1'', shape = (''[/'', ''/]'')\<rparr>),
           (''N2'', \<lparr>label = ''End'', shape = (''(('', ''))'')\<rparr>)]"
  have n0: "node_name 0 = ''N0''" and n1: "node_name (Suc 0) = ''N1''"
    by (simp_all add: eval_defs)
  have w0: "well_formed ?S0" by (simp add: well_formed_def n0)
  have v: "visit [] (Suc (Suc 0)) (If ''c'' [Assign ''x = 1''] []) (Some ''N0'') None None ?S0 =
     Inr (Some ''N3'', ?V)"
    by (simp add: eval_defs)
  have h: "build_graph (Suc 0) [Assign ''x = 1''] =
     Inr (?ns, [(Some ''N0'', Some ''N1'', ''''), (Some ''N1'', Some ''N2'', '''')])"
    by (simp add: eval_defs)
  note T = C8_ids_and_sentinels [where st = ?S0 and lbl = "''x = 1''" and shp = "(''[/'', ''/]'')"
      and fs = "[]" and d' = "Suc (Suc 0)"
      and n = "If ''c'' [Assign ''x = 1''] []" and p = "Some ''N0''" and ls = None and le = None
      and r = "Some ''N3''" and st' = ?V and d = "Suc 0" and tree = "[Assign ''x = 1'']"
      and ns = ?ns and es = "[(Some ''N0'', Some ''N1'', ''''), (Some ''N1'', Some ''N2'', '''')]"]
  note A = T [THEN conjunct2, THEN conjunct1, THEN mp, OF w0]
  from A [THEN conjunct1] n1
  have a: "add_node ''x = 1'' (''[/'', ''/]'') ?S0 = (''N1'', ?S1)" by simp
  from A [THEN conjunct2, THEN conjunct1] n1
  have f: "''N1'' \<notin> fst ` set [(''N0'', \<lparr>label = ''Start'', shape = (''(('', ''))'')\<rparr>)]"
    by simp
  from A [THEN conjunct2, THEN conjunct2, THEN conjunct2] a
  have w1: "well_formed ?S1" by simp
  note k12 = T [THEN conjunct2, THEN conjunct2, THEN conjunct1]
  note B = T [THEN conjunct2, THEN conjunct2, THEN conjunct2, THEN conjunct1, THEN mp,
      OF conjI [OF w0 v]]
  from B [THEN conjunct1] have wv: "well_formed ?V" .
  from B [THEN conjunct2, THEN conjunct2]
  have g: "\<exists>new. [(''N0'', \<lparr>label = ''Start'', shape = (''(('', ''))'')\<rparr>),
           (''N1'', \<lparr>label = ''if c'', shape = (''{'', ''}'')\<rparr>),
           (''N2'', \<lparr>label = ''x = 1'', shape = (''[/'', ''/]'')\<rparr>),
           (''N3'', \<lparr>label = '' '', shape = (''(('', ''))'')\<rparr>)] =
          [(''N0'', \<lparr>label = ''Start'', shape = (''(('', ''))'')\<rparr>)] @ new" by simp
  from T [THEN conjunct2, THEN conjunct2, THEN conjunct2, THEN conjunct2, THEN mp, OF h]
  obtain mid where
    m: "?ns = (node_name 0, \<lparr>label = ''Start'', shape = (''(('', ''))'')\<rparr>) # mid @
            [(node_name (Suc (length mid)), \<lparr>label = ''End'', shape = (''(('', ''))'')\<rparr>)]"
    and i: "\<forall>nd \<in> snd ` set mid. nd \<noteq> \<lparr>label = ''Start'', shape = (''(('', ''))'')\<rparr>
                                  \<and> nd \<noteq> \<lparr>label = ''End'', shape = (''(('', ''))'')\<rparr>"
    and k: "map fst ?ns = map node_name [0..<length ?ns]"
    and d: "distinct (map fst ?ns)"
    by blast
  from i have "\<lparr>label = ''Start'', shape = (''(('', ''))'')\<rparr> \<notin> snd ` set mid"
    and "\<lparr>label = ''End'', shape = (''(('', ''))'')\<rparr> \<notin> snd ` set mid" by blast+
  with m have e: "\<exists>mid. ?ns =
          (node_name 0, \<lparr>label = ''Start'', shape = (''(('', ''))'')\<rparr>) # mid @
            [(node_name (Suc (length mid)), \<lparr>label = ''End'', shape = (''(('', ''))'')\<rparr>)]
        \<and> \<lparr>label = ''Start'', shape = (''(('', ''))'')\<rparr> \<notin> snd ` set mid
        \<and> \<lparr>label = ''End'', shape = (''(('', ''))'')\<rparr> \<notin> snd ` set mid" by blast
  show ?thesis
    by (intro conjI)
       (rule w0, rule a, rule f, rule w1, rule k12, rule v, rule wv, rule g, rule h, rule e,
        rule k, rule d)
qed

text \<open>
  Claim C9. Once a guarded sequence of statements has returned \<^verbatim>\<open>None\<close> (or another false
  value), the statements after it change neither the result nor the store. This holds for
  the sequence itself; for the top level of a program, which is its main body, or the body
  of its first function when there is no main body; for the true and the false branch of
  a conditional; and for the body of a \<^verbatim>\<open>for\<close> and of a \<^verbatim>\<open>while\<close> loop.
\<close>

theorem C9_later_statements_skipped:
  "(visit_guarded fs d xs p ls le st = Inr (r, st') \<and> \<not> truthy r \<longrightarrow>
      visit_guarded fs d (xs @ ys) p ls le st = Inr (r, st')) \<and>
   (filter (\<lambda>n. \<not> is_function_def n) tree = xs @ ys \<and>
    visit_guarded (collect_functions tree) d xs (Some (node_name 0)) None None
      \<lparr>nodes = [(node_name 0, \<lparr>label = ''Start'', shape = (''(('', ''))'')\<rparr>)],
       edges = [], node_counter = Suc 0\<rparr> = Inr (r, st') \<and> \<not> truthy r \<longrightarrow>
      visit_program d tree = Inr (r, st')) \<and>
   (filter (\<lambda>n. \<not> is_function_def n) tree = [] \<and>
    collect_functions tree = (name, entry) # others \<and> body entry = xs @ ys \<and>
    add_node (''def '' @ name @ ''(...)'') (''[['', '']]'')
      \<lparr>nodes = [(node_name 0, \<lparr>label = ''Start'', shape = (''(('', ''))'')\<rparr>)],
       edges = [], node_counter = Suc 0\<rparr> = (k, st2) \<and>
    visit_guarded (collect_functions tree) d xs (Some k) None None
      (add_edge (Some (node_name 0), Some k, '''') st2) = Inr (r, st') \<and> \<not> truthy r \<longrightarrow>
      visit_program d tree = Inr (r, st')) \<and>
   (add_node (''if '' @ test) (''{'', ''}'') st = (c, st1) \<and>
    visit_guarded fs d xs (Some c) ls le (add_edge (p, Some c, '''') st1) = Inr (r, st') \<and>
    \<not> truthy r \<longrightarrow>
      visit fs (Suc d) (If test (xs @ ys) eb) p ls le st =
      visit fs (Suc d) (If test xs eb) p ls le st) \<and>
   (add_node (''if '' @ test) (''{'', ''}'') st = (c, st1) \<and>
    visit_guarded fs d tb (Some c) ls le (add_edge (p, Some c, '''') st1) = Inr (te, st3) \<and>
    visit_guarded fs d xs (Some c) ls le st3 = Inr (r, st') \<and> \<not> truthy r \<longrightarrow>
      visit fs (Suc d) (If test tb (xs @ ys)) p ls le st =
      visit fs (Suc d) (If test tb xs) p ls le st) \<and>
   (add_node lbl (''{{'', ''}}'') st = (h, st1) \<and>
    add_node '' '' (''(('', ''))'') (add_edge (p, Some h, '''') st1) = (x, st3) \<and>
    visit_guarded fs d xs (Some h) (Some h) (Some x) st3 = Inr (r, st') \<and> \<not> truthy r \<longrightarrow>
      (lbl = ''For '' @ t \<longrightarrow>
         visit fs (Suc d) (For t (xs @ ys) eb) p ls le st =
         visit fs (Suc d) (For t xs eb) p ls le st) \<and>
      (lbl = ''While '' @ t \<longrightarrow>
         visit fs (Suc d) (While t (xs @ ys) eb) p ls le st =
         visit fs (Suc d) (While t xs eb) p ls le st))"
proof (intro conjI impI; (elim conjE)?)
  assume "visit_guarded fs d xs p ls le st = Inr (r, st')" "\<not> truthy r"
  then show "visit_guarded fs d (xs @ ys) p ls le st = Inr (r, st')"
    by (rule visit_guarded_cut)
next
  assume m: "filter (\<lambda>n. \<not> is_function_def n) tree = xs @ ys"
    and v: "visit_guarded (collect_functions tree) d xs (Some (node_name 0)) None None
      \<lparr>nodes = [(node_name 0, \<lparr>label = ''Start'', shape = (''(('', ''))'')\<rparr>)],
       edges = [], node_counter = Suc 0\<rparr> = Inr (r, st')"
    and n: "\<not> truthy r"
  have "truthy (Some (node_name 0))" by (simp add: node_name_nonempty)
  from visit_guarded_nonempty [OF v this n] have "xs \<noteq> []" .
  with m visit_guarded_cut [OF v n, of ys]
  show "visit_program d tree = Inr (r, st')"
    by (simp add: visit_program_def add_node_start)
next
  assume m: "filter (\<lambda>n. \<not> is_function_def n) tree = []"
    and c: "collect_functions tree = (name, entry) # others"
    and b: "body entry = xs @ ys"
    and a: "add_node (''def '' @ name @ ''(...)'') (''[['', '']]'')
      \<lparr>nodes = [(node_name 0, \<lparr>label = ''Start'', shape = (''(('', ''))'')\<rparr>)],
       edges = [], node_counter = Suc 0\<rparr> = (k, st2)"
    and v: "visit_guarded (collect_functions tree) d xs (Some k) None None
      (add_edge (Some (node_name 0), Some k, '''') st2) = Inr (r, st')"
    and n: "\<not> truthy r"
  from m c b a visit_guarded_cut [OF v n, of ys]
  show "visit_program d tree = Inr (r, st')"
    by (simp add: visit_program_def add_node_start)
next
  assume a: "add_node (''if '' @ test) (''{'', ''}'') st = (c, st1)"
    and v: "visit_guarded fs d xs (Some c) ls le (add_edge (p, Some c, '''') st1) = Inr (r, st')"
    and n: "\<not> truthy r"
  from visit_guarded_nonempty [OF v add_node_truthy [OF a] n] have "xs \<noteq> []" .
  with a v visit_guarded_cut [OF v n, of ys]
  show "visit fs (Suc d) (If test (xs @ ys) eb) p ls le st =
        visit fs (Suc d) (If test xs eb) p ls le st" by (simp split: sum.splits)
next
  assume a: "add_node (''if '' @ test) (''{'', ''}'') st = (c, st1)"
    and v1: "visit_guarded fs d tb (Some c) ls le (add_edge (p, Some c, '''') st1) = Inr (te, st3)"
    and v: "visit_guarded fs d xs (Some c) ls le st3 = Inr (r, st')"
    and n: "\<not> truthy r"
  from visit_guarded_nonempty [OF v add_node_truthy [OF a] n] have "xs \<noteq> []" .
  with a v1 v visit_guarded_cut [OF v n, of ys]
  show "visit fs (Suc d) (If test tb (xs @ ys)) p ls le st =
        visit fs (Suc d) (If test tb xs) p ls le st" by (simp split: sum.splits)
next
  assume a: "add_node lbl (''{{'', ''}}'') st = (h, st1)"
    and a3: "add_node '' '' (''(('', ''))'') (add_edge (p, Some h, '''') st1) = (x, st3)"
    and v: "visit_guarded fs d xs (Some h) (Some h) (Some x) st3 = Inr (r, st')"
    and n: "\<not> truthy r" and l: "lbl = ''For '' @ t"
  with visit_guarded_cut [OF v n, of ys]
  show "visit fs (Suc d) (For t (xs @ ys) eb) p ls le st =
         visit fs (Suc d) (For t xs eb) p ls le st" by simp
next
  assume a: "add_node lbl (''{{'', ''}}'') st = (h, st1)"
    and a3: "add_node '' '' (''(('', ''))'') (add_edge (p, Some h, '''') st1) = (x, st3)"
    and v: "visit_guarded fs d xs (Some h) (Some h) (Some x) st3 = Inr (r, st')"
    and n: "\<not> truthy r" and l: "lbl = ''While '' @ t"
  with visit_guarded_cut [OF v n, of ys]
  show "visit fs (Suc d) (While t (xs @ ys) eb) p ls le st =
         visit fs (Suc d) (While t xs eb) p ls le st" by simp
qed

text \<open>
  A \<^verbatim>\<open>return\<close> followed by an assignment: as a sequence after Start, as a program, as
  the body of a program's only function, as the true branch, as the false branch, and as
  the body of each kind of loop.
\<close>

theorem C9_witness:
  "visit_guarded [] (Suc 0) [Return ''return 0'', Assign ''x = 1''] (Some ''N0'') None None
     \<lparr>nodes = [(''N0'', \<lparr>label = ''Start'', shape = (''(('', ''))'')\<rparr>)],
      edges = [], node_counter = 1\<rparr> =
     Inr (None,
          \<lparr>nodes = [(''N0'', \<lparr>label = ''Start'', shape = (''(('', ''))'')\<rparr>),
                    (''N1'', \<lparr>label = ''return 0'', shape = (''('', '')'')\<rparr>)],
           edges = [(Some ''N0'', Some ''N1'', '''')], node_counter = 2\<rparr>) \<and>
   visit_program (Suc 0) [Return ''return 0'', Assign ''x = 1''] =
     Inr (None,
          \<lparr>nodes = [(''N0'', \<lparr>label = ''Start'', shape = (''(('', ''))'')\<rparr>),
                    (''N1'', \<lparr>label = ''return 0'', shape = (''('', '')'')\<rparr>)],
           edges = [(Some ''N0'', Some ''N1'', '''')], node_counter = 2\<rparr>) \<and>
   visit_program (Suc 0) [FunctionDef ''f'' [] [Return ''return 0'', Assign ''x = 1'']] =
     Inr (None,
          \<lparr>nodes = [(''N0'', \<lparr>label = ''Start'', shape = (''(('', ''))'')\<rparr>),
                    (''N1'', \<lparr>label = ''def f(...)'', shape = (''[['', '']]'')\<rparr>),
                    (''N2'', \<lparr>label = ''return 0'', shape = (''('', '')'')\<rparr>)],
           edges = [(Some ''N0'', Some ''N1'', ''''), (Some ''N1'', Some ''N2'', '''')],
           node_counter = 3\<rparr>) \<and>
   visit [] (Suc (Suc 0)) (If ''c'' [Return ''return 0'', Assign ''x = 1''] [])
       None None None empty_builder =
     visit [] (Suc (Suc 0)) (If ''c'' [Return ''return 0''] []) None None None empty_builder \<and>
   visit [] (Suc (Suc 0)) (If ''c'' [] [Return ''return 0'', Assign ''x = 1''])
       None None None empty_builder =
     visit [] (Suc (Suc 0)) (If ''c'' [] [Return ''return 0'']) None None None empty_builder \<and>
   visit [] (Suc (Suc 0)) (For ''i'' [Return ''return 0'', Assign ''x = 1''] [])
       None None None empty_builder =
     visit [] (Suc (Suc 0)) (For ''i'' [Return ''return 0''] []) None None None empty_builder \<and>
   visit [] (Suc (Suc 0)) (While ''c'' [Return ''return 0'', Assign ''x = 1''] [])
       None None None empty_builder =
     visit [] (Suc (Suc 0)) (While ''c'' [Return ''return 0''] []) None None None empty_builder"
proof -
  let ?S0 = "\<lparr>nodes = [(''N0'', \<lparr>label = ''Start'', shape = (''(('', ''))'')\<rparr>)],
      edges = [], node_counter = 1\<rparr>"
  let ?R1 = "\<lparr>nodes = [(''N0'', \<lparr>label = ''Start'', shape = (''(('', ''))'')\<rparr>),
                    (''N1'', \<lparr>label = ''return 0'', shape = (''('', '')'')\<rparr>)],
           edges = [(Some ''N0'', Some ''N1'', '''')], node_counter = 2\<rparr>"
  let ?I1 = "\<lparr>nodes = [(''N0'', \<lparr>label = ''if c'', shape = (''{'', ''}'')\<rparr>)],
      edges = [], node_counter = 1\<rparr>"
  let ?I2 = "\<lparr>nodes = [(''N0'', \<lparr>label = ''if c'', shape = (''{'', ''}'')\<rparr>)],
      edges = [(None, Some ''N0'', '''')], node_counter = 1\<rparr>"
  let ?I3 = "\<lparr>nodes = [(''N0'', \<lparr>label = ''if c'', shape = (''{'', ''}'')\<rparr>),
                     (''N1'', \<lparr>label = ''return 0'', shape = (''('', '')'')\<rparr>)],
      edges = [(None, Some ''N0'', ''''), (Some ''N0'', Some ''N1'', '''')], node_counter = 2\<rparr>"
  let ?L1 = "\<lambda>l. \<lparr>nodes = [(''N0'', \<lparr>label = l, shape = (''{{'', ''}}'')\<rparr>)],
      edges = [], node_counter = 1\<rparr>"
  let ?L3 = "\<lambda>l. \<lparr>nodes = [(''N0'', \<lparr>label = l, shape = (''{{'', ''}}'')\<rparr>),
                         (''N1'', \<lparr>label = '' '', shape = (''(('', ''))'')\<rparr>)],
      edges = [(None, Some ''N0'', '''')], node_counter = 2\<rparr>"
  let ?L4 = "\<lambda>l. \<lparr>nodes = [(''N0'', \<lparr>label = l, shape = (''{{'', ''}}'')\<rparr>),
                         (''N1'', \<lparr>label = '' '', shape = (''(('', ''))'')\<rparr>),
                         (''N2'', \<lparr>label = ''return 0'', shape = (''('', '')'')\<rparr>)],
      edges = [(None, Some ''N0'', ''''), (Some ''N0'', Some ''N2'', '''')], node_counter = 3\<rparr>"
  let ?xs = "[Return ''return 0'']" and ?ys = "[Assign ''x = 1'']"
  have n: "\<not> truthy None" by simp
  have g: "visit_guarded [] (Suc 0) ?xs (Some ''N0'') None None ?S0 = Inr (None, ?R1)"
    by (simp add: eval_defs)
  let ?F2 = "\<lparr>nodes = [(''N0'', \<lparr>label = ''Start'', shape = (''(('', ''))'')\<rparr>),
                    (''N1'', \<lparr>label = ''def f(...)'', shape = (''[['', '']]'')\<rparr>)],
           edges = [], node_counter = 2\<rparr>"
  let ?F4 = "\<lparr>nodes = [(''N0'', \<lparr>label = ''Start'', shape = (''(('', ''))'')\<rparr>),
                    (''N1'', \<lparr>label = ''def f(...)'', shape = (''[['', '']]'')\<rparr>),
                    (''N2'', \<lparr>label = ''return 0'', shape = (''('', '')'')\<rparr>)],
           edges = [(Some ''N0'', Some ''N1'', ''''), (Some ''N1'', Some ''N2'', '''')],
           node_counter = 3\<rparr>"
  let ?prog = "[FunctionDef ''f'' [] (?xs @ ?ys)]"
  let ?entry = "\<lparr>body = ?xs @ ?ys, args = []\<rparr>"
  have k0: "node_name 0 = ''N0''" by (simp add: eval_defs)
  have m1: "filter (\<lambda>n. \<not> is_function_def n) (?xs @ ?ys) = ?xs @ ?ys" by simp
  have g1: "visit_guarded (collect_functions (?xs @ ?ys)) (Suc 0) ?xs (Some (node_name 0)) None None
      \<lparr>nodes = [(node_name 0, \<lparr>label = ''Start'', shape = (''(('', ''))'')\<rparr>)],
       edges = [], node_counter = Suc 0\<rparr> = Inr (None, ?R1)"
    by (simp add: eval_defs)
  have m2: "filter (\<lambda>n. \<not> is_function_def n) ?prog = []" by simp
  have c2: "collect_functions ?prog = (''f'', ?entry) # []"
    by (simp add: collect_functions_def)
  have b2: "body ?entry = ?xs @ ?ys" by simp
  have a2: "add_node (''def '' @ ''f'' @ ''(...)'') (''[['', '']]'')
      \<lparr>nodes = [(node_name 0, \<lparr>label = ''Start'', shape = (''(('', ''))'')\<rparr>)],
       edges = [], node_counter = Suc 0\<rparr> = (''N1'', ?F2)"
    by (simp add: eval_defs)
  have g2: "visit_guarded (collect_functions ?prog) (Suc 0) ?xs (Some ''N1'') None None
      (add_edge (Some (node_name 0), Some ''N1'', '''') ?F2) = Inr (None, ?F4)"
    by (simp add: eval_defs)
  have a: "add_node (''if '' @ ''c'') (''{'', ''}'') empty_builder = (''N0'', ?I1)"
    by (simp add: eval_defs)
  have v3: "visit_guarded [] (Suc 0) ?xs (Some ''N0'') None None
              (add_edge (None, Some ''N0'', '''') ?I1) = Inr (None, ?I3)"
    by (simp add: eval_defs)
  have v4a: "visit_guarded [] (Suc 0) [] (Some ''N0'') None None
              (add_edge (None, Some ''N0'', '''') ?I1) = Inr (Some ''N0'', ?I2)"
    by (simp add: eval_defs)
  have v4: "visit_guarded [] (Suc 0) ?xs (Some ''N0'') None None ?I2 = Inr (None, ?I3)"
    by (simp add: eval_defs)
  have l1: "add_node l (''{{'', ''}}'') empty_builder = (''N0'', ?L1 l)" for l
    by (simp add: eval_defs)
  have l3: "add_node '' '' (''(('', ''))'') (add_edge (None, Some ''N0'', '''') (?L1 l))
              = (''N1'', ?L3 l)" for l
    by (simp add: eval_defs)
  have v5: "visit_guarded [] (Suc 0) ?xs (Some ''N0'') (Some ''N0'') (Some ''N1'') (?L3 l)
              = Inr (None, ?L4 l)" for l
    by (simp add: eval_defs)
  note T1 = C9_later_statements_skipped [where fs = "[]" and d = "Suc 0" and xs = ?xs
      and ys = ?ys and p = "Some ''N0''" and ls = None and le = None and st = ?S0
      and r = None and st' = ?R1, THEN conjunct1, THEN mp, OF conjI [OF g n]]
  note T2 = C9_later_statements_skipped [where d = "Suc 0" and xs = ?xs
      and ys = ?ys and tree = "?xs @ ?ys" and r = None and st' = ?R1,
      THEN conjunct2, THEN conjunct1, THEN mp, OF conjI [OF m1 conjI [OF g1 n]]]
  note T2b = C9_later_statements_skipped [where d = "Suc 0" and xs = ?xs
      and ys = ?ys and tree = ?prog and name = "''f''" and entry = ?entry and others = "[]"
      and k = "''N1''" and ?st2.0 = ?F2 and r = None and st' = ?F4,
      THEN conjunct2, THEN conjunct2, THEN conjunct1, THEN mp,
      OF conjI [OF m2 conjI [OF c2 conjI [OF b2 conjI [OF a2 conjI [OF g2 n]]]]]]
  note T3 = C9_later_statements_skipped [where fs = "[]" and d = "Suc 0" and xs = ?xs
      and ys = ?ys and p = None and ls = None and le = None and st = empty_builder
      and test = "''c''" and c = "''N0''" and ?st1.0 = ?I1 and eb = "[]"
      and r = None and st' = ?I3, THEN conjunct2, THEN conjunct2, THEN conjunct2, THEN conjunct1, THEN mp,
      OF conjI [OF a conjI [OF v3 n]]]
  note T4 = C9_later_statements_skipped [where fs = "[]" and d = "Suc 0" and xs = ?xs
      and ys = ?ys and p = None and ls = None and le = None and st = empty_builder
      and test = "''c''" and c = "''N0''" and ?st1.0 = ?I1 and tb = "[]"
      and te = "Some ''N0''" and ?st3.0 = ?I2
      and r = None and st' = ?I3, THEN conjunct2, THEN conjunct2, THEN conjunct2,
      THEN conjunct2, THEN conjunct1, THEN mp, OF conjI [OF a conjI [OF v4a conjI [OF v4 n]]]]
  note T5 = C9_later_statements_skipped [where fs = "[]" and d = "Suc 0" and xs = ?xs
      and ys = ?ys and p = None and ls = None and le = None and st = empty_builder
      and lbl = "''For i''" and t = "''i''" and h = "''N0''" and ?st1.0 = "?L1 ''For i''"
      and x = "''N1''" and ?st3.0 = "?L3 ''For i''" and eb = "[]"
      and r = None and st' = "?L4 ''For i''", THEN conjunct2, THEN conjunct2, THEN conjunct2,
      THEN conjunct2, THEN conjunct2, THEN mp, OF conjI [OF l1 conjI [OF l3 conjI [OF v5 n]]],
      THEN conjunct1, THEN mp]
  note T6 = C9_later_statements_skipped [where fs = "[]" and d = "Suc 0" and xs = ?xs
      and ys = ?ys and p = None and ls = None and le = None and st = empty_builder
      and lbl = "''While c''" and t = "''c''" and h = "''N0''" and ?st1.0 = "?L1 ''While c''"
      and x = "''N1''" and ?st3.0 = "?L3 ''While c''" and eb = "[]"
      and r = None and st' = "?L4 ''While c''", THEN conjunct2, THEN conjunct2, THEN conjunct2,
      THEN conjunct2, THEN conjunct2, THEN mp, OF conjI [OF l1 conjI [OF l3 conjI [OF v5 n]]],
      THEN conjunct2, THEN mp]
  have e1: "''For i'' = ''For '' @ ''i''" and e2: "''While c'' = ''While '' @ ''c''" by simp_all
  from T1 T2 T2b T3 T4 T5 [OF e1] T6 [OF e2] show ?thesis by simp
qed

text \<open>
  Claim C10. A call of a function of the table is inlined by visiting the callee's body
  with the caller's loop header and loop exit; a \<^verbatim>\<open>break\<close> in that body adds an edge to
  that loop exit, a \<^verbatim>\<open>continue\<close> an edge to that loop header.
\<close>

theorem C10_inlined_body_keeps_loop_context:
  "(map_of fs f = Some entry \<and> f \<notin> set [''input'', ''print''] \<and>
    add_node lbl (''['', '']'') st = (k, st1) \<longrightarrow>
      visit fs (Suc d) (Expr (Some f) lbl) p ls le st =
      visit_inline fs d (body entry) (Some k) ls le (add_edge (p, Some k, '''') st1)) \<and>
   (truthy le \<longrightarrow>
      visit_inline fs (Suc d) (Break # rest) q ls le s =
      visit_inline fs (Suc d) rest None ls le (add_edge (q, le, ''break'') s)) \<and>
   (truthy ls \<longrightarrow>
      visit_inline fs (Suc d) (Continue # rest) q ls le s =
      visit_inline fs (Suc d) rest None ls le (add_edge (q, ls, ''continue'') s))"
  by simp

text \<open>
  A callee whose body is \<^verbatim>\<open>break\<close>, and one whose body is \<^verbatim>\<open>continue\<close>, called with the
  loop header \<open>N1\<close> and the loop exit \<open>N2\<close>; and the program
  \<^verbatim>\<open>def f(): break\<close>, \<^verbatim>\<open>while c: f()\<close>, where the edge of the break goes from the call
  site \<open>N3\<close> to the loop's exit node \<open>N2\<close>.
\<close>

theorem C10_witness:
  "visit [(''f'', \<lparr>body = [Break], args = []\<rparr>)] (Suc (Suc 0)) (Expr (Some ''f'') ''f()'')
      None (Some ''N1'') (Some ''N2'') empty_builder =
     Inr (None,
          \<lparr>nodes = [(''N0'', \<lparr>label = ''f()'', shape = (''['', '']'')\<rparr>)],
           edges = [(None, Some ''N0'', ''''), (Some ''N0'', Some ''N2'', ''break'')],
           node_counter = 1\<rparr>) \<and>
   visit [(''f'', \<lparr>body = [Continue], args = []\<rparr>)] (Suc (Suc 0)) (Expr (Some ''f'') ''f()'')
      None (Some ''N1'') (Some ''N2'') empty_builder =
     Inr (None,
          \<lparr>nodes = [(''N0'', \<lparr>label = ''f()'', shape = (''['', '']'')\<rparr>)],
           edges = [(None, Some ''N0'', ''''), (Some ''N0'', Some ''N1'', ''continue'')],
           node_counter = 1\<rparr>) \<and>
   build_graph (Suc (Suc (Suc 0)))
      [FunctionDef ''f'' [] [Break], While ''c'' [Expr (Some ''f'') ''f()''] []] =
     Inr ([(''N0'', \<lparr>label = ''Start'', shape = (''(('', ''))'')\<rparr>),
           (''N1'', \<lparr>label = ''While c'', shape = (''{{'', ''}}'')\<rparr>),
           (''N2'', \<lparr>label = '' '', shape = (''(('', ''))'')\<rparr>),
           (''N3'', \<lparr>label = ''f()'', shape = (''['', '']'')\<rparr>),
           (''N4'', \<lparr>label = ''End'', shape = (''(('', ''))'')\<rparr>)],
          [(Some ''N0'', Some ''N1'', ''''), (Some ''N1'', Some ''N3'', ''''),
           (Some ''N3'', Some ''N2'', ''break''),
           (Some ''N1'', Some ''N2'', ''End Loop''),
           (Some ''N2'', Some ''N4'', '''')])"
proof -
  have full: "build_graph (Suc (Suc (Suc 0)))
      [FunctionDef ''f'' [] [Break], While ''c'' [Expr (Some ''f'') ''f()''] []] =
     Inr ([(''N0'', \<lparr>label = ''Start'', shape = (''(('', ''))'')\<rparr>),
           (''N1'', \<lparr>label = ''While c'', shape = (''{{'', ''}}'')\<rparr>),
           (''N2'', \<lparr>label = '' '', shape = (''(('', ''))'')\<rparr>),
           (''N3'', \<lparr>label = ''f()'', shape = (''['', '']'')\<rparr>),
           (''N4'', \<lparr>label = ''End'', shape = (''(('', ''))'')\<rparr>)],
          [(Some ''N0'', Some ''N1'', ''''), (Some ''N1'', Some ''N3'', ''''),
           (Some ''N3'', Some ''N2'', ''break''),
           (Some ''N1'', Some ''N2'', ''End Loop''),
           (Some ''N2'', Some ''N4'', '''')])"
    by (simp add: eval_defs)
  let ?K1 = "\<lparr>nodes = [(''N0'', \<lparr>label = ''f()'', shape = (''['', '']'')\<rparr>)],
           edges = [], node_counter = 1\<rparr>"
  have a: "add_node ''f()'' (''['', '']'') empty_builder = (''N0'', ?K1)"
    by (simp add: eval_defs)
  have m: "map_of [(''f'', \<lparr>body = b, args = []\<rparr>)] ''f'' = Some \<lparr>body = b, args = []\<rparr>
           \<and> ''f'' \<notin> set [''input'', ''print''] \<and>
           add_node ''f()'' (''['', '']'') empty_builder = (''N0'', ?K1)" for b
    using a by simp
  have t1: "truthy (Some ''N1'')" and t2: "truthy (Some ''N2'')" by simp_all
  note B1 = C10_inlined_body_keeps_loop_context [where fs = "[(''f'', \<lparr>body = [Break], args = []\<rparr>)]"
      and f = "''f''" and entry = "\<lparr>body = [Break], args = []\<rparr>" and lbl = "''f()''"
      and st = empty_builder and k = "''N0''" and ?st1.0 = ?K1 and d = "Suc 0" and p = None
      and ls = "Some ''N1''" and le = "Some ''N2''", THEN conjunct1, THEN mp, OF m]
  note B2 = C10_inlined_body_keeps_loop_context [where fs = "[(''f'', \<lparr>body = [Break], args = []\<rparr>)]"
      and d = 0 and rest = "[]" and q = "Some ''N0''" and s = "add_edge (None, Some ''N0'', '''') ?K1"
      and ls = "Some ''N1''" and le = "Some ''N2''", THEN conjunct2, THEN conjunct1, THEN mp, OF t2]
  note C1 = C10_inlined_body_keeps_loop_context [where fs = "[(''f'', \<lparr>body = [Continue], args = []\<rparr>)]"
      and f = "''f''" and entry = "\<lparr>body = [Continue], args = []\<rparr>" and lbl = "''f()''"
      and st = empty_builder and k = "''N0''" and ?st1.0 = ?K1 and d = "Suc 0" and p = None
      and ls = "Some ''N1''" and le = "Some ''N2''", THEN conjunct1, THEN mp, OF m]
  note C2 = C10_inlined_body_keeps_loop_context [where fs = "[(''f'', \<lparr>body = [Continue], args = []\<rparr>)]"
      and d = 0 and rest = "[]" and q = "Some ''N0''" and s = "add_edge (None, Some ''N0'', '''') ?K1"
      and ls = "Some ''N1''" and le = "Some ''N2''", THEN conjunct2, THEN conjunct2, THEN mp, OF t1]
  from B1 B2 C1 C2 full show ?thesis by (simp add: add_edge_def)
qed

end
